theory Spec2Isabelle
  imports Main "HOL-Library.Sublist"
begin

section \<open>Python values, exceptions and dictionaries\<close>

text \<open>
  An exception is its class name (\<open>type(e).__name__\<close>) and its message (\<open>str(e)\<close>).
  A computation that may raise returns \<open>exn + 'a\<close>, with \<open>Inl\<close> the raised exception.
\<close>

datatype exn = Exn (exn_type: string) (exn_msg: string)

text \<open>
  The values stored in the result dictionaries. Clock readings are whole seconds:
  \<open>PSeconds\<close> is a \<open>float\<close> difference of two readings of \<open>time.time()\<close>, \<open>PStamp\<close> the
  reading that \<open>datetime.now().isoformat()\<close> renders.
\<close>

datatype pyval = PNone | PStr string | PInt int | PSeconds int | PStamp int

type_synonym dict = "(string \<times> pyval) list"

text \<open>\<open>d[k] = v\<close>: an existing key keeps its position, a new key is appended.\<close>

fun dict_set :: "'k \<Rightarrow> 'v \<Rightarrow> ('k \<times> 'v) list \<Rightarrow> ('k \<times> 'v) list" where
  "dict_set k v [] = [(k, v)]"
| "dict_set k v ((k', v') # kvs) =
     (if k' = k then (k, v) # kvs else (k', v') # dict_set k v kvs)"

text \<open>\<open>del d[k]\<close> for a key that is present.\<close>

fun dict_del :: "'k \<Rightarrow> ('k \<times> 'v) list \<Rightarrow> ('k \<times> 'v) list" where
  "dict_del k [] = []"
| "dict_del k ((k', v') # kvs) = (if k' = k then kvs else (k', v') # dict_del k kvs)"

text \<open>
  \<open>r['status']\<close> on the value \<open>execute_step\<close> returned: a dictionary, or \<open>None\<close> when the
  retry loop runs off its end.
\<close>

definition getitem :: "dict option \<Rightarrow> string \<Rightarrow> exn + pyval" where
  "getitem r k =
     (case r of
        None \<Rightarrow> Inl (Exn ''TypeError''
                    ([CHR 0x27] @ ''NoneType'' @ [CHR 0x27] @ '' object is not subscriptable''))
      | Some d \<Rightarrow> (case map_of d k of None \<Rightarrow> Inl (Exn ''KeyError'' ([CHR 0x27] @ k @ [CHR 0x27])) | Some v \<Rightarrow> Inr v))"

definition opt_str :: "string option \<Rightarrow> pyval" where
  "opt_str s = (case s of None \<Rightarrow> PNone | Some t \<Rightarrow> PStr t)"

text \<open>Truthiness of an \<open>Optional[str]\<close>: \<open>None\<close> and the empty string are false.\<close>

definition truthy :: "string option \<Rightarrow> bool" where
  "truthy s = (case s of None \<Rightarrow> False | Some t \<Rightarrow> t \<noteq> [])"

text \<open>\<open>a or b\<close> on optional strings, and \<open>step.timeout or 10\<close>.\<close>

definition str_or :: "string option \<Rightarrow> string option \<Rightarrow> string option" where
  "str_or a b = (if truthy a then a else b)"

definition timeout_or :: "int option \<Rightarrow> int \<Rightarrow> int" where
  "timeout_or t d = (case t of None \<Rightarrow> d | Some n \<Rightarrow> if n = 0 then d else n)"

subsection \<open>\<open>str(n)\<close>\<close>

definition digit_char :: "nat \<Rightarrow> char" where
  "digit_char n = ''0123456789'' ! (n mod 10)"

function str_nat :: "nat \<Rightarrow> string" where
  "str_nat n = (if n < 10 then [digit_char n] else str_nat (n div 10) @ [digit_char n])"
  by pat_completeness auto
termination
  by (relation "measure id") auto

definition str_int :: "int \<Rightarrow> string" where
  "str_int i = (if i < 0 then CHR ''-'' # str_nat (nat (- i)) else str_nat (nat i))"

text \<open>\<open>needle in haystack\<close> on strings: \<open>needle\<close> occurs as a contiguous run.\<close>

fun str_in :: "string \<Rightarrow> string \<Rightarrow> bool" where
  "str_in v [] = (v = [])"
| "str_in v (c # t) = (prefix v (c # t) \<or> str_in v t)"

section \<open>The request and result models\<close>

record TestStep =
  action :: string
  selector :: "string option"
  step_value :: "string option"
  timeout :: "int option"
  description :: "string option"

record TestRequest =
  test_id :: string
  url :: string
  steps :: "TestStep list"
  browser :: "string option"
  headless :: "bool option"
  webhook_url :: "string option"

record TestResult =
  result_test_id :: string
  status :: string
  duration :: int
  steps_executed :: int
  steps_passed :: int
  steps_failed :: int
  error_message :: "string option"
  screenshot_url :: "string option"
  timestamp :: int
  detailed_results :: "dict option list"

section \<open>The browser driver and the process state\<close>

text \<open>
  The driver is an external collaborator. Its calls are transitions of an environment
  state \<open>'d\<close> that either return or raise; nothing is assumed about them. \<open>Driver\<close> opens a
  session, \<open>wait_visible\<close> is \<open>WebDriverWait(driver, t).until(visibility_of_element_located
  (CSS_SELECTOR, sel))\<close>, \<open>text_of\<close> reads \<open>element.text\<close>, and \<open>uuid4\<close> draws the
  random session identifier.

  Two builtins of the interpreter are taken the same way, since which strings \<open>int\<close>
  reads and which durations the platform sleeps depend on its version and its host:
  \<open>py_int\<close> is \<open>int(s)\<close> on a string, a number or a fault, and \<open>too_long\<close> is the fault, if
  any, with which \<open>time.sleep\<close> refuses a long duration.
\<close>

type_synonym element = nat

record 'd driver_ops =
  Driver :: "string option \<Rightarrow> bool option \<Rightarrow> 'd \<Rightarrow> (exn + unit) \<times> 'd"
  uuid4 :: "'d \<Rightarrow> string \<times> 'd"
  drv_get :: "string option \<Rightarrow> 'd \<Rightarrow> (exn + unit) \<times> 'd"
  wait_visible :: "string \<Rightarrow> int \<Rightarrow> 'd \<Rightarrow> (exn + element) \<times> 'd"
  text_of :: "element \<Rightarrow> 'd \<Rightarrow> (exn + string) \<times> 'd"
  drv_click :: "string \<Rightarrow> 'd \<Rightarrow> (exn + unit) \<times> 'd"
  drv_type :: "string \<Rightarrow> string \<Rightarrow> 'd \<Rightarrow> (exn + unit) \<times> 'd"
  save_screenshot :: "string \<Rightarrow> 'd \<Rightarrow> (exn + unit) \<times> 'd"
  drv_quit :: "'d \<Rightarrow> (exn + unit) \<times> 'd"
  py_int :: "string \<Rightarrow> exn + int"
  too_long :: "int \<Rightarrow> exn option"

text \<open>
  The state a request runs in: the environment of the driver, the global registry
  \<open>active_drivers\<close> from session identifier to driver object (an object is its identity,
  and \<open>next_obj\<close> is the next identity to hand out), the clock in seconds, the durations
  passed to \<open>time.sleep\<close> so far, the paths passed to \<open>driver.save_screenshot\<close> so far,
  and the tasks handed to \<open>background_tasks\<close>. The clock counts whole seconds and only
  \<open>time.sleep\<close> moves it: the time a driver call takes is not measured.
\<close>

record 'd world =
  browser_env :: 'd
  active_drivers :: "(string \<times> nat) list"
  next_obj :: nat
  clock :: int
  slept :: "int list"
  screenshot_calls :: "string list"
  background_tasks :: "(string \<times> TestResult) list"

definition SCREENSHOTS_DIR :: string where
  "SCREENSHOTS_DIR = ''screenshots''"

text \<open>
  \<open>time.sleep(secs)\<close> on an integer. A negative duration raises \<open>ValueError\<close>. A duration
  of at most \<open>SLEEP_SURE\<close> seconds, the 4294967295 milliseconds that the narrowest of the
  implementations of CPython takes, is slept on every platform. Whether a longer one is
  slept or refused is the platform's \<open>too_long\<close>.
\<close>

definition SLEEP_SURE :: int where
  "SLEEP_SURE = 4294967"

definition sleep_error :: "'d driver_ops \<Rightarrow> int \<Rightarrow> exn option" where
  "sleep_error ops secs =
     (if secs < 0 then Some (Exn ''ValueError'' ''sleep length must be non-negative'')
      else if secs \<le> SLEEP_SURE then None
      else too_long ops secs)"

text \<open>The state after \<open>secs\<close> seconds of sleep.\<close>

definition slept_for :: "int \<Rightarrow> 'd world \<Rightarrow> 'd world" where
  "slept_for secs w = w\<lparr>clock := clock w + secs, slept := slept w @ [secs]\<rparr>"

definition time_sleep :: "'d driver_ops \<Rightarrow> int \<Rightarrow> 'd world \<Rightarrow> (exn + unit) \<times> 'd world" where
  "time_sleep ops secs w =
     (case sleep_error ops secs of
        Some e \<Rightarrow> (Inl e, w)
      | None \<Rightarrow> (Inr (), slept_for secs w))"

text \<open>A driver call made from the state \<open>w\<close>.\<close>

definition call :: "('d \<Rightarrow> (exn + 'a) \<times> 'd) \<Rightarrow> 'd world \<Rightarrow> (exn + 'a) \<times> 'd world" where
  "call f w = (case f (browser_env w) of (r, d) \<Rightarrow> (r, w\<lparr>browser_env := d\<rparr>))"

text \<open>\<open>driver.save_screenshot(path)\<close>: the call is recorded, whatever its outcome.\<close>

definition take_screenshot :: "'d driver_ops \<Rightarrow> string \<Rightarrow> 'd world \<Rightarrow> (exn + unit) \<times> 'd world" where
  "take_screenshot ops path w =
     call (save_screenshot ops path) (w\<lparr>screenshot_calls := screenshot_calls w @ [path]\<rparr>)"

section \<open>SeleniumExecutor\<close>

text \<open>The dictionary every action but \<open>screenshot\<close> returns.\<close>

definition action_result :: "TestStep \<Rightarrow> int \<Rightarrow> int \<Rightarrow> 'd world \<Rightarrow> dict" where
  "action_result step step_number start_time w =
     [(''step_number'', PInt step_number),
      (''action'', PStr (action step)),
      (''selector'', opt_str (selector step)),
      (''value'', opt_str (step_value step)),
      (''duration'', PSeconds (clock w - start_time)),
      (''timestamp'', PStamp (clock w))]"

text \<open>The dictionary the \<open>screenshot\<close> action returns.\<close>

definition screenshot_result :: "TestStep \<Rightarrow> int \<Rightarrow> string \<Rightarrow> int \<Rightarrow> 'd world \<Rightarrow> dict" where
  "screenshot_result step step_number screenshot_path start_time w =
     [(''step_number'', PInt step_number),
      (''action'', PStr (action step)),
      (''screenshot'', PStr screenshot_path),
      (''duration'', PSeconds (clock w - start_time)),
      (''timestamp'', PStamp (clock w))]"

text \<open>
  The end common to the actions that fall through to the final \<open>return\<close>: the fault of
  the last call, or the dictionary.
\<close>

definition finish :: "TestStep \<Rightarrow> int \<Rightarrow> int \<Rightarrow> (exn + 'a) \<times> 'd world \<Rightarrow> (exn + dict) \<times> 'd world" where
  "finish step step_number start_time rw =
     (case rw of
        (Inl e, w) \<Rightarrow> (Inl e, w)
      | (Inr _, w) \<Rightarrow> (Inr (action_result step step_number start_time w), w))"

text \<open>The \<open>TypeError\<close> of \<open>time.sleep(None)\<close>.\<close>

definition sleep_None :: exn where
  "sleep_None =
     Exn ''TypeError''
       ([CHR 0x27] @ ''NoneType'' @ [CHR 0x27] @ '' object cannot be interpreted as an integer'')"

text \<open>\<open>wait_time = int(step.value) if step.value else step.timeout\<close>\<close>

definition wait_time :: "'d driver_ops \<Rightarrow> TestStep \<Rightarrow> exn + int option" where
  "wait_time ops step =
     (if truthy (step_value step)
      then (case py_int ops (the (step_value step)) of Inl e \<Rightarrow> Inl e | Inr n \<Rightarrow> Inr (Some n))
      else Inr (timeout step))"

text \<open>
  \<open>_execute_action\<close>: the chain of \<open>if\<close>/\<open>elif\<close> on the action string. A fault of a driver
  call, a \<open>raise\<close> of the method and a fault of \<open>int\<close> or \<open>time.sleep\<close> all leave it as \<open>Inl\<close>.
\<close>

definition execute_action ::
  "'d driver_ops \<Rightarrow> string \<Rightarrow> TestStep \<Rightarrow> int \<Rightarrow> 'd world \<Rightarrow> (exn + dict) \<times> 'd world" where
  "execute_action ops tid step step_number w =
     (let start_time = clock w in
      if action step = ''open_url'' then
        (case call (drv_get ops (str_or (step_value step) (selector step))) w of
           (Inl e, w1) \<Rightarrow> (Inl e, w1)
         | (Inr _, w1) \<Rightarrow> finish step step_number start_time (time_sleep ops 1 w1))
      else if action step = ''click'' then
        (if \<not> truthy (selector step)
         then (Inl (Exn ''ValueError'' ''Selector is required for click action''), w)
         else
           (case call (wait_visible ops (the (selector step)) (timeout_or (timeout step) 10)) w of
              (Inl e, w1) \<Rightarrow> (Inl e, w1)
            | (Inr _, w1) \<Rightarrow>
                finish step step_number start_time (call (drv_click ops (the (selector step))) w1)))
      else if action step = ''type_text'' then
        (if \<not> truthy (selector step) \<or> \<not> truthy (step_value step)
         then (Inl (Exn ''ValueError'' ''Selector and value are required for type_text action''), w)
         else
           (case call (wait_visible ops (the (selector step)) (timeout_or (timeout step) 10)) w of
              (Inl e, w1) \<Rightarrow> (Inl e, w1)
            | (Inr _, w1) \<Rightarrow>
                finish step step_number start_time
                  (call (drv_type ops (the (selector step)) (the (step_value step))) w1)))
      else if action step = ''verify'' then
        (if \<not> truthy (selector step)
         then (Inl (Exn ''ValueError'' ''Selector is required for verify action''), w)
         else
           (case call (wait_visible ops (the (selector step)) (timeout_or (timeout step) 10)) w of
              (Inl e, w1) \<Rightarrow> (Inl e, w1)
            | (Inr element, w1) \<Rightarrow>
                if truthy (step_value step) then
                  (case call (text_of ops element) w1 of
                     (Inl e, w2) \<Rightarrow> (Inl e, w2)
                   | (Inr element_text, w2) \<Rightarrow>
                       if \<not> str_in (the (step_value step)) element_text
                       then (Inl (Exn ''AssertionError''
                                (''Expected '' @ [CHR 0x27] @ the (step_value step) @ [CHR 0x27]
                                 @ '' not found in element text: ''
                                 @ [CHR 0x27] @ element_text @ [CHR 0x27])), w2)
                       else (Inr (action_result step step_number start_time w2), w2))
                else (Inr (action_result step step_number start_time w1), w1)))
      else if action step = ''wait'' then
        (case wait_time ops step of
           Inl e \<Rightarrow> (Inl e, w)
         | Inr None \<Rightarrow> (Inl sleep_None, w)
         | Inr (Some secs) \<Rightarrow> finish step step_number start_time (time_sleep ops secs w))
      else if action step = ''screenshot'' then
        (let screenshot_path = SCREENSHOTS_DIR @ ''/'' @ tid @ ''_step_'' @ str_int step_number @ ''.png'' in
         case take_screenshot ops screenshot_path w of
           (Inl e, w1) \<Rightarrow> (Inl e, w1)
         | (Inr _, w1) \<Rightarrow>
             (Inr (screenshot_result step step_number screenshot_path start_time w1), w1))
      else (Inl (Exn ''ValueError'' (''Unknown action: '' @ action step)), w))"

text \<open>
  \<open>_capture_failure_screenshot\<close>: the path
  \<open>f"{SCREENSHOTS_DIR}/{self.test_id}_step_{step_number}_FAILED.png"\<close>, or \<open>None\<close> when
  saving raised. The helper itself never raises.
\<close>

definition FAILED_path :: "string \<Rightarrow> int \<Rightarrow> string" where
  "FAILED_path tid step_number =
     SCREENSHOTS_DIR @ ''/'' @ tid @ ''_step_'' @ str_int step_number @ ''_FAILED.png''"

definition capture_failure_screenshot ::
  "'d driver_ops \<Rightarrow> string \<Rightarrow> int \<Rightarrow> 'd world \<Rightarrow> string option \<times> 'd world" where
  "capture_failure_screenshot ops tid step_number w =
     (let screenshot_path = FAILED_path tid step_number in
      case take_screenshot ops screenshot_path w of
        (Inl e, w1) \<Rightarrow> (None, w1)
      | (Inr _, w1) \<Rightarrow> (Some screenshot_path, w1))"

text \<open>The dictionary built after the final failed attempt.\<close>

definition failed_result :: "TestStep \<Rightarrow> int \<Rightarrow> exn \<Rightarrow> string option \<Rightarrow> int \<Rightarrow> int \<Rightarrow> dict" where
  "failed_result step step_number e screenshot_path attempt now =
     [(''step_number'', PInt step_number),
      (''action'', PStr (action step)),
      (''status'', PStr ''failed''),
      (''error'', PStr (exn_msg e)),
      (''error_type'', PStr (exn_type e)),
      (''screenshot'', opt_str screenshot_path),
      (''attempt'', PInt attempt),
      (''timestamp'', PStamp now)]"

definition max_retries :: nat where
  "max_retries = 2"

definition retry_delay :: int where
  "retry_delay = 2"

text \<open>
  The body of \<open>for attempt in range(max_retries + 1)\<close>, over the attempts still to make.
  A loop that ends without returning makes the function return \<open>None\<close>; an exception
  raised inside the handler would leave \<open>execute_step\<close>.
\<close>

fun retry_loop ::
  "'d driver_ops \<Rightarrow> string \<Rightarrow> TestStep \<Rightarrow> int \<Rightarrow> nat list \<Rightarrow> 'd world
     \<Rightarrow> (exn + dict option) \<times> 'd world" where
  "retry_loop ops tid step step_number [] w = (Inr None, w)"
| "retry_loop ops tid step step_number (attempt # rest) w =
     (case execute_action ops tid step step_number w of
        (Inr result, w1) \<Rightarrow>
          (Inr (Some (dict_set ''status'' (PStr ''passed'')
                       (dict_set ''attempt'' (PInt (int attempt + 1)) result))), w1)
      | (Inl e, w1) \<Rightarrow>
          if attempt < max_retries then
            (case time_sleep ops retry_delay w1 of
               (Inl e', w2) \<Rightarrow> (Inl e', w2)
             | (Inr _, w2) \<Rightarrow> retry_loop ops tid step step_number rest w2)
          else
            (case capture_failure_screenshot ops tid step_number w1 of
               (screenshot_path, w2) \<Rightarrow>
                 (Inr (Some (failed_result step step_number e screenshot_path
                               (int attempt + 1) (clock w2))), w2)))"

definition execute_step ::
  "'d driver_ops \<Rightarrow> string \<Rightarrow> TestStep \<Rightarrow> int \<Rightarrow> 'd world \<Rightarrow> (exn + dict option) \<times> 'd world" where
  "execute_step ops tid step step_number w =
     retry_loop ops tid step step_number [0 ..< max_retries + 1] w"

section \<open>The endpoint \<open>execute_test\<close>\<close>

text \<open>
  The loop \<open>for idx, step in enumerate(request.steps, 1)\<close> with its three accumulators.
  Reading \<open>step_result['status']\<close> is the one place of the loop that can raise.
\<close>

fun run_steps ::
  "'d driver_ops \<Rightarrow> string \<Rightarrow> TestStep list \<Rightarrow> int \<Rightarrow> dict option list \<times> int \<times> int \<Rightarrow> 'd world
     \<Rightarrow> (exn + dict option list \<times> int \<times> int) \<times> 'd world" where
  "run_steps ops tid [] idx acc w = (Inr acc, w)"
| "run_steps ops tid (step # rest) idx (results, passed, failed) w =
     (case execute_step ops tid step idx w of
        (Inl e, w1) \<Rightarrow> (Inl e, w1)
      | (Inr step_result, w1) \<Rightarrow>
          (case getitem step_result ''status'' of
             Inl e \<Rightarrow> (Inl e, w1)
           | Inr st \<Rightarrow>
               if st = PStr ''passed''
               then run_steps ops tid rest (idx + 1)
                      (results @ [step_result], passed + 1, failed) w1
               else run_steps ops tid rest (idx + 1)
                      (results @ [step_result], passed, failed + 1) w1))"

text \<open>\<open>if request.webhook_url: background_tasks.add_task(send_webhook, url, result)\<close>\<close>

definition add_webhook_task :: "TestRequest \<Rightarrow> TestResult \<Rightarrow> 'd world \<Rightarrow> 'd world" where
  "add_webhook_task request result w =
     (if truthy (webhook_url request)
      then w\<lparr>background_tasks := background_tasks w @ [(the (webhook_url request), result)]\<rparr>
      else w)"

text \<open>
  The \<open>try\<close> block. Beside its outcome it gives the variable \<open>driver\<close>, which the handler
  and the \<open>finally\<close> block read: \<open>None\<close> until \<open>Driver(...)\<close> has returned.
\<close>

definition try_block ::
  "'d driver_ops \<Rightarrow> TestRequest \<Rightarrow> int \<Rightarrow> 'd world \<Rightarrow> (exn + TestResult) \<times> nat option \<times> 'd world" where
  "try_block ops request start_time w =
     (case call (Driver ops (browser request) (headless request)) w of
        (Inl e, w1) \<Rightarrow> (Inl e, None, w1)
      | (Inr _, w1) \<Rightarrow>
          (let driver = next_obj w1;
               w2 = w1\<lparr>next_obj := next_obj w1 + 1\<rparr>;
               (session_id, d3) = uuid4 ops (browser_env w2);
               w3 = w2\<lparr>browser_env := d3,
                       active_drivers := dict_set session_id driver (active_drivers w2)\<rparr>
           in case call (drv_get ops (Some (url request))) w3 of
                (Inl e, w4) \<Rightarrow> (Inl e, Some driver, w4)
              | (Inr _, w4) \<Rightarrow>
                  (case run_steps ops (test_id request) (steps request) 1 ([], 0, 0) w4 of
                     (Inl e, w5) \<Rightarrow> (Inl e, Some driver, w5)
                   | (Inr (detailed, passed, failed), w5) \<Rightarrow>
                       (let result =
                              \<lparr>result_test_id = test_id request,
                               status = (if failed = 0 then ''PASS'' else ''FAIL''),
                               duration = clock w5 - start_time,
                               steps_executed = int (length (steps request)),
                               steps_passed = passed,
                               steps_failed = failed,
                               error_message = None,
                               screenshot_url = None,
                               timestamp = clock w5,
                               detailed_results = detailed\<rparr>
                        in (Inr result, Some driver, add_webhook_task request result w5)))))"

text \<open>The path \<open>f"{SCREENSHOTS_DIR}/{request.test_id}_ERROR.png"\<close>.\<close>

definition ERROR_path :: "TestRequest \<Rightarrow> string" where
  "ERROR_path request = SCREENSHOTS_DIR @ ''/'' @ test_id request @ ''_ERROR.png''"

text \<open>The handler \<open>except Exception as e\<close> of the endpoint.\<close>

definition except_block ::
  "'d driver_ops \<Rightarrow> TestRequest \<Rightarrow> int \<Rightarrow> exn \<Rightarrow> nat option \<Rightarrow> 'd world \<Rightarrow> TestResult \<times> 'd world" where
  "except_block ops request start_time e driver w =
     (let elapsed = clock w - start_time;
          error_msg = exn_type e @ '': '' @ exn_msg e;
          (screenshot_path, w1) =
            (case driver of
               None \<Rightarrow> (None, w)
             | Some _ \<Rightarrow>
                 (let path = ERROR_path request in
                  (Some path, snd (take_screenshot ops path w))));
          result =
            \<lparr>result_test_id = test_id request,
             status = ''ERROR'',
             duration = elapsed,
             steps_executed = 0,
             steps_passed = 0,
             steps_failed = 0,
             error_message = Some error_msg,
             screenshot_url = screenshot_path,
             timestamp = clock w1,
             detailed_results = []\<rparr>
      in (result, add_webhook_task request result w1))"

text \<open>
  The loop of the \<open>finally\<close> block over a snapshot of the registry:
  \<open>for sid, d in list(active_drivers.items()): if d == driver: del active_drivers[sid]\<close>
\<close>

definition deregister :: "nat \<Rightarrow> (string \<times> nat) list \<Rightarrow> (string \<times> nat) list" where
  "deregister driver reg =
     fold (\<lambda>(sid, d) m. if d = driver then dict_del sid m else m) reg reg"

definition finally_block :: "'d driver_ops \<Rightarrow> nat option \<Rightarrow> 'd world \<Rightarrow> 'd world" where
  "finally_block ops driver w =
     (case driver of
        None \<Rightarrow> w
      | Some drv \<Rightarrow>
          (case call (drv_quit ops) w of
             (Inl e, w1) \<Rightarrow> w1
           | (Inr _, w1) \<Rightarrow> w1\<lparr>active_drivers := deregister drv (active_drivers w1)\<rparr>))"

definition execute_test :: "'d driver_ops \<Rightarrow> TestRequest \<Rightarrow> 'd world \<Rightarrow> TestResult \<times> 'd world" where
  "execute_test ops request w =
     (let start_time = clock w in
      case try_block ops request start_time w of
        (Inr result, driver, w1) \<Rightarrow> (result, finally_block ops driver w1)
      | (Inl e, driver, w1) \<Rightarrow>
          (case except_block ops request start_time e driver w1 of
             (result, w2) \<Rightarrow> (result, finally_block ops driver w2)))"

section \<open>Scripted drivers\<close>

text \<open>
  A driver for evaluating the endpoint on concrete requests. Its state counts the calls
  made so far; the call numbered \<open>c\<close> raises when \<open>c\<close> is in \<open>fails\<close>, and every element shows
  the text \<open>txt\<close>. Drawing the session identifier is not a driver call. Its \<open>int\<close> reads
  the two literals \<open>5\<close> and \<open>10\<close> and raises \<open>ValueError\<close> on any other string, and its
  \<open>time.sleep\<close> refuses every duration above \<open>SLEEP_SURE\<close>.
\<close>

definition table_int :: "(string \<times> int) list \<Rightarrow> string \<Rightarrow> exn + int" where
  "table_int table s =
     (case map_of table s of
        Some n \<Rightarrow> Inr n
      | None \<Rightarrow>
          Inl (Exn ''ValueError''
                (''invalid literal for int() with base 10: '' @ [CHR 0x27] @ s @ [CHR 0x27])))"


definition scripted_call :: "nat set \<Rightarrow> 'a \<Rightarrow> nat \<Rightarrow> (exn + 'a) \<times> nat" where
  "scripted_call fails x c =
     (if c \<in> fails then (Inl (Exn ''WebDriverException'' ''session failed''), Suc c)
      else (Inr x, Suc c))"

definition scripted :: "nat set \<Rightarrow> string \<Rightarrow> nat driver_ops" where
  "scripted fails txt =
     \<lparr>Driver = (\<lambda>b h. scripted_call fails ()),
      uuid4 = (\<lambda>c. (''session'', c)),
      drv_get = (\<lambda>u. scripted_call fails ()),
      wait_visible = (\<lambda>sel t. scripted_call fails 0),
      text_of = (\<lambda>el. scripted_call fails txt),
      drv_click = (\<lambda>sel. scripted_call fails ()),
      drv_type = (\<lambda>sel v. scripted_call fails ()),
      save_screenshot = (\<lambda>p. scripted_call fails ()),
      drv_quit = scripted_call fails (),
      py_int = table_int [(''5'', 5), (''10'', 10)],
      too_long = (\<lambda>secs. Some (Exn ''OverflowError'' ''sleep length is too large''))\<rparr>"

definition world0 :: "nat world" where
  "world0 = \<lparr>browser_env = 0, active_drivers = [], next_obj = 0, clock = 0, slept = [],
             screenshot_calls = [], background_tasks = []\<rparr>"

definition a_step :: "string \<Rightarrow> string option \<Rightarrow> string option \<Rightarrow> TestStep" where
  "a_step a sel v =
     \<lparr>action = a, selector = sel, step_value = v, timeout = Some 10, description = None\<rparr>"

definition a_request :: "TestStep list \<Rightarrow> TestRequest" where
  "a_request ss =
     \<lparr>test_id = ''t1'', url = ''http://example.test/'', steps = ss, browser = Some ''chrome'',
      headless = Some True, webhook_url = None\<rparr>"

text \<open>Fixtures: a click on \<open>#go\<close>, a session in which every call raises, and its fault.\<close>

definition go :: TestStep where
  "go = a_step ''click'' (Some ''#go'') None"

definition dead_session :: "nat driver_ops" where
  "dead_session = scripted UNIV ''''"

definition session_failed :: exn where
  "session_failed = Exn ''WebDriverException'' ''session failed''"

text \<open>
  Fixtures: a \<open>verify\<close> step, \<open>wait\<close> steps with the values \<open>abc\<close> and \<open>5\<close>, with no value
  and the timeout 10, and with no value and the timeout -1, and the fault of \<open>int\<close> on
  \<open>abc\<close>.
\<close>

definition verify_welcome :: TestStep where
  "verify_welcome = a_step ''verify'' (Some ''h1'') (Some ''Welcome'')"






text \<open>Fixture: a request of two steps, a click without selector and a screenshot.\<close>

definition two_steps :: TestRequest where
  "two_steps = a_request [a_step ''click'' None None, a_step ''screenshot'' None None]"

text \<open>Fixtures: a request without steps, and a session whose third call, the \<open>quit\<close> of that
  request, raises.\<close>

definition no_steps :: TestRequest where
  "no_steps = a_request []"

definition failing_quit :: "nat driver_ops" where
  "failing_quit = scripted {2} ''''"

section \<open>The retry loop\<close>

lemma time_sleep_retry: "time_sleep ops retry_delay w = (Inr (), slept_for 2 w)"
  by (simp add: time_sleep_def sleep_error_def retry_delay_def SLEEP_SURE_def)

lemma attempts_list: "[0 ..< max_retries + 1] = [0, 1, 2]"
  by (simp add: max_retries_def upt_rec)

lemma upt_three: "[0 ..< 3] = [0, 1, 2::nat]"
  by (simp add: upt_rec)

lemma map_of_dict_set: "map_of (dict_set k v d) k' = (if k' = k then Some v else map_of d k')"
  by (induction d) auto

lemma step_pass1:
  assumes "execute_action ops tid step n w = (Inr r, w1)"
  shows "execute_step ops tid step n w =
           (Inr (Some (dict_set ''status'' (PStr ''passed'') (dict_set ''attempt'' (PInt 1) r))), w1)"
  using assms unfolding execute_step_def attempts_list by simp

lemma step_pass2:
  assumes "execute_action ops tid step n w = (Inl e1, w1)"
    and "execute_action ops tid step n (slept_for 2 w1) = (Inr r, w2)"
  shows "execute_step ops tid step n w =
           (Inr (Some (dict_set ''status'' (PStr ''passed'') (dict_set ''attempt'' (PInt 2) r))), w2)"
  using assms unfolding execute_step_def attempts_list
  by (simp add: time_sleep_retry max_retries_def)

lemma step_pass3:
  assumes "execute_action ops tid step n w = (Inl e1, w1)"
    and "execute_action ops tid step n (slept_for 2 w1) = (Inl e2, w2)"
    and "execute_action ops tid step n (slept_for 2 w2) = (Inr r, w3)"
  shows "execute_step ops tid step n w =
           (Inr (Some (dict_set ''status'' (PStr ''passed'') (dict_set ''attempt'' (PInt 3) r))), w3)"
  using assms unfolding execute_step_def attempts_list
  by (simp add: time_sleep_retry max_retries_def)

lemma step_fail:
  assumes "execute_action ops tid step n w = (Inl e1, w1)"
    and "execute_action ops tid step n (slept_for 2 w1) = (Inl e2, w2)"
    and "execute_action ops tid step n (slept_for 2 w2) = (Inl e3, w3)"
    and "capture_failure_screenshot ops tid n w3 = (shot, w4)"
  shows "execute_step ops tid step n w =
           (Inr (Some (failed_result step n e3 shot 3 (clock w4))), w4)"
  using assms unfolding execute_step_def attempts_list
  by (simp add: time_sleep_retry max_retries_def)

text \<open>Every call of \<open>execute_step\<close> ends in one of two ways.\<close>

lemma execute_step_cases:
  obtains (pass) att r w0 w' where "att \<in> {1, 2, 3}"
      "execute_action ops tid step n w0 = (Inr r, w')"
      "execute_step ops tid step n w =
         (Inr (Some (dict_set ''status'' (PStr ''passed'') (dict_set ''attempt'' (PInt att) r))), w')"
    | (fail) e shot w' where
      "execute_step ops tid step n w = (Inr (Some (failed_result step n e shot 3 (clock w'))), w')"
proof (cases "execute_action ops tid step n w")
  case a1: (Pair r1 w1)
  show ?thesis
  proof (cases r1)
    case (Inr r)
    with a1 show ?thesis using pass[of 1 w r w1] step_pass1[of ops tid step n w r w1] by simp
  next
    case e1: (Inl e1)
    show ?thesis
    proof (cases "execute_action ops tid step n (slept_for 2 w1)")
      case a2: (Pair r2 w2)
      show ?thesis
      proof (cases r2)
        case (Inr r)
        with a1 e1 a2 show ?thesis
          using pass[of 2 "slept_for 2 w1" r w2] step_pass2[of ops tid step n w e1 w1 r w2] by simp
      next
        case e2: (Inl e2)
        show ?thesis
        proof (cases "execute_action ops tid step n (slept_for 2 w2)")
          case a3: (Pair r3 w3)
          show ?thesis
          proof (cases r3)
            case (Inr r)
            with a1 e1 a2 e2 a3 show ?thesis
              using pass[of 3 "slept_for 2 w2" r w3]
                step_pass3[of ops tid step n w e1 w1 e2 w2 r w3] by simp
          next
            case e3: (Inl e3)
            obtain shot w4 where "capture_failure_screenshot ops tid n w3 = (shot, w4)"
              by (cases "capture_failure_screenshot ops tid n w3")
            with a1 e1 a2 e2 a3 e3 show ?thesis
              using fail[of e3 shot w4] step_fail[of ops tid step n w e1 w1 e2 w2 e3 w3 shot w4]
              by simp
          qed
        qed
      qed
    qed
  qed
qed

text \<open>An action that returns does so with one of the two dictionaries.\<close>

lemma execute_action_shape:
  assumes "execute_action ops tid step n w = (Inr r, w')"
  shows "(\<exists>t. r = action_result step n t w') \<or> (\<exists>p t. r = screenshot_result step n p t w')"
  using assms unfolding execute_action_def finish_def Let_def
  by (auto split: if_splits prod.splits sum.splits option.splits)


lemma capture_ok:
  assumes "fst (save_screenshot ops (FAILED_path tid n) (browser_env w)) = Inr ()"
  shows "fst (capture_failure_screenshot ops tid n w) = Some (FAILED_path tid n)"
  using assms
  by (cases "save_screenshot ops (FAILED_path tid n) (browser_env w)")
     (simp add: capture_failure_screenshot_def take_screenshot_def call_def Let_def)

lemma capture_raises:
  assumes "fst (save_screenshot ops (FAILED_path tid n) (browser_env w)) = Inl e"
  shows "fst (capture_failure_screenshot ops tid n w) = None"
  using assms
  by (cases "save_screenshot ops (FAILED_path tid n) (browser_env w)")
     (simp add: capture_failure_screenshot_def take_screenshot_def call_def Let_def)

lemma run_steps_failed:
  assumes "execute_step ops tid step n w = (Inr (Some (failed_result step n e shot a t)), w')"
  shows "run_steps ops tid (step # rest) n (rs, p, f) w =
         run_steps ops tid rest (n + 1) (rs @ [Some (failed_result step n e shot a t)], p, f + 1) w'"
  using assms by (simp add: getitem_def failed_result_def)

subsection \<open>Which screenshots an action asks for\<close>

lemma call_calls: "call f w = (r, w') \<Longrightarrow> screenshot_calls w' = screenshot_calls w"
  by (auto simp: call_def split: prod.splits)

lemma finish_world: "finish step n t rw = (r, w') \<Longrightarrow> w' = snd rw"
  by (auto simp: finish_def split: sum.splits prod.splits)

lemma snd_call_calls: "screenshot_calls (snd (call f w)) = screenshot_calls w"
  by (auto simp: call_def split: prod.splits)

lemma snd_time_sleep_calls: "screenshot_calls (snd (time_sleep ops s w)) = screenshot_calls w"
  by (auto simp: time_sleep_def slept_for_def split: option.splits)

lemma take_screenshot_calls:
  "take_screenshot ops p w = (r, w') \<Longrightarrow> screenshot_calls w' = screenshot_calls w @ [p]"
  by (auto simp: take_screenshot_def call_def split: prod.splits)

lemma execute_action_calls:
  assumes "execute_action ops tid step n w = (r, w')"
  shows "screenshot_calls w' = screenshot_calls w \<or>
         screenshot_calls w' =
           screenshot_calls w @ [SCREENSHOTS_DIR @ ''/'' @ tid @ ''_step_'' @ str_int n @ ''.png'']"
proof -
  consider (open_url) "action step = ''open_url''" | (click) "action step = ''click''"
    | (type_text) "action step = ''type_text''" | (verify) "action step = ''verify''"
    | (wait) "action step = ''wait''" | (screenshot) "action step = ''screenshot''"
    | (other) "action step \<notin> {''open_url'', ''click'', ''type_text'', ''verify'', ''wait'', ''screenshot''}"
    by blast
  then show ?thesis
  proof cases
    case open_url
    with assms show ?thesis
      by (auto simp: execute_action_def Let_def snd_time_sleep_calls split: prod.splits sum.splits
          dest!: call_calls finish_world)
  next
    case click
    with assms show ?thesis
      by (auto simp: execute_action_def Let_def snd_call_calls split: if_splits prod.splits sum.splits
          dest!: call_calls finish_world)
  next
    case type_text
    with assms show ?thesis
      by (auto simp: execute_action_def Let_def snd_call_calls split: if_splits prod.splits sum.splits
          dest!: call_calls finish_world)
  next
    case verify
    with assms show ?thesis
      by (auto simp: execute_action_def Let_def snd_call_calls split: if_splits prod.splits sum.splits
          dest!: call_calls)
  next
    case wait
    with assms show ?thesis
      by (auto simp: execute_action_def Let_def snd_time_sleep_calls
          split: if_splits prod.splits sum.splits option.splits dest!: finish_world)
  next
    case screenshot
    with assms show ?thesis
      by (auto simp: execute_action_def Let_def split: prod.splits sum.splits
          dest!: take_screenshot_calls)
  next
    case other
    with assms show ?thesis by (auto simp: execute_action_def Let_def)
  qed
qed

lemma execute_action_no_FAILED:
  assumes "execute_action ops tid step n w = (r, w')"
    and "FAILED_path tid n \<notin> set (screenshot_calls w)"
  shows "FAILED_path tid n \<notin> set (screenshot_calls w')"
  using execute_action_calls[OF assms(1)] assms(2) by (auto simp: FAILED_path_def)

lemmas eval_defs = execute_step_def upt_three Let_def execute_action_def finish_def truthy_def
  str_or_def timeout_or_def time_sleep_def sleep_error_def SLEEP_SURE_def retry_delay_def
  max_retries_def wait_time_def table_int_def sleep_None_def
  capture_failure_screenshot_def take_screenshot_def call_def SCREENSHOTS_DIR_def slept_for_def
  scripted_def scripted_call_def world0_def a_step_def a_request_def action_result_def
  screenshot_result_def failed_result_def opt_str_def str_int_def digit_char_def FAILED_path_def ERROR_path_def
  go_def session_failed_def dead_session_def

subsection \<open>Substrings, and the actions \<open>verify\<close> and \<open>wait\<close>\<close>

lemma str_in_sublist: "str_in v t = sublist v t"
  by (induction t) (simp_all add: sublist_Cons_right)

lemma str_in_iff: "str_in v t \<longleftrightarrow> (\<exists>p s. t = p @ v @ s)"
  by (simp add: str_in_sublist sublist_def)

lemma verify_action:
  assumes "action step = ''verify''" "selector step = Some sel" "sel \<noteq> []"
    and "step_value step = Some v" "v \<noteq> []"
    and "wait_visible ops sel (timeout_or (timeout step) 10) (browser_env w) = (Inr el, d1)"
    and "text_of ops el d1 = (Inr txt, d2)"
  shows "execute_action ops tid step n w =
           (if str_in v txt
            then (Inr (action_result step n (clock w) (w\<lparr>browser_env := d2\<rparr>)), w\<lparr>browser_env := d2\<rparr>)
            else (Inl (Exn ''AssertionError''
                        (''Expected '' @ [CHR 0x27] @ v @ [CHR 0x27] @ '' not found in element text: ''
                         @ [CHR 0x27] @ txt @ [CHR 0x27])), w\<lparr>browser_env := d2\<rparr>))"
  using assms by (simp add: execute_action_def truthy_def call_def Let_def)



section \<open>The Step Executor\<close>

text \<open>
  C2. Whatever the step and whatever the driver does, \<open>execute_step\<close> returns a result
  dictionary and raises nothing. The result is \<open>passed\<close> only as the dictionary of an
  attempt that returned, and an action that returns at once gives it at attempt 1. When
  the action raises on all three attempts, the fault does not leave \<open>execute_step\<close>: the
  result is \<open>failed\<close> and carries the message and the class name of the third fault.
\<close>

theorem execute_step_contains_faults:
  "(\<exists>r w'. execute_step ops tid step n w = (Inr (Some r), w') \<and>
     (map_of r ''status'' = Some (PStr ''passed'') \<and>
        (\<exists>w0 r0 att. execute_action ops tid step n w0 = (Inr r0, w') \<and>
           r = dict_set ''status'' (PStr ''passed'') (dict_set ''attempt'' (PInt att) r0)) \<or>
      map_of r ''status'' = Some (PStr ''failed'') \<and>
      (\<exists>e. map_of r ''error'' = Some (PStr (exn_msg e)) \<and>
           map_of r ''error_type'' = Some (PStr (exn_type e)))))
   \<and> (execute_action ops tid step n w = (Inr r1, v1) \<longrightarrow>
        execute_step ops tid step n w =
          (Inr (Some (dict_set ''status'' (PStr ''passed'') (dict_set ''attempt'' (PInt 1) r1))), v1))
   \<and> (execute_action ops tid step n w = (Inl e1, w1) \<longrightarrow>
      execute_action ops tid step n (slept_for 2 w1) = (Inl e2, w2) \<longrightarrow>
      execute_action ops tid step n (slept_for 2 w2) = (Inl e3, w3) \<longrightarrow>
        (\<exists>r w'. execute_step ops tid step n w = (Inr (Some r), w') \<and>
           map_of r ''status'' = Some (PStr ''failed'') \<and>
           map_of r ''error'' = Some (PStr (exn_msg e3)) \<and>
           map_of r ''error_type'' = Some (PStr (exn_type e3)) \<and>
           map_of r ''attempt'' = Some (PInt 3)))"
proof (intro conjI impI)
  show "\<exists>r w'. execute_step ops tid step n w = (Inr (Some r), w') \<and>
     (map_of r ''status'' = Some (PStr ''passed'') \<and>
        (\<exists>w0 r0 att. execute_action ops tid step n w0 = (Inr r0, w') \<and>
           r = dict_set ''status'' (PStr ''passed'') (dict_set ''attempt'' (PInt att) r0)) \<or>
      map_of r ''status'' = Some (PStr ''failed'') \<and>
      (\<exists>e. map_of r ''error'' = Some (PStr (exn_msg e)) \<and>
           map_of r ''error_type'' = Some (PStr (exn_type e))))"
  proof (cases rule: execute_step_cases[of ops tid step n w])
    case (pass att r w0 w')
    have "map_of (dict_set ''status'' (PStr ''passed'') (dict_set ''attempt'' (PInt att) r)) ''status''
            = Some (PStr ''passed'')"
      by (simp add: map_of_dict_set)
    with pass(2,3) show ?thesis by blast
  next
    case (fail e shot w')
    have "map_of (failed_result step n e shot 3 (clock w')) ''status'' = Some (PStr ''failed'')"
      "map_of (failed_result step n e shot 3 (clock w')) ''error'' = Some (PStr (exn_msg e))"
      "map_of (failed_result step n e shot 3 (clock w')) ''error_type'' = Some (PStr (exn_type e))"
      by (simp_all add: failed_result_def)
    with fail show ?thesis by blast
  qed
next
  assume "execute_action ops tid step n w = (Inr r1, v1)"
  then show "execute_step ops tid step n w =
          (Inr (Some (dict_set ''status'' (PStr ''passed'') (dict_set ''attempt'' (PInt 1) r1))), v1)"
    by (rule step_pass1)
next
  assume a: "execute_action ops tid step n w = (Inl e1, w1)"
    "execute_action ops tid step n (slept_for 2 w1) = (Inl e2, w2)"
    "execute_action ops tid step n (slept_for 2 w2) = (Inl e3, w3)"
  obtain shot w4 where c: "capture_failure_screenshot ops tid n w3 = (shot, w4)"
    by (cases "capture_failure_screenshot ops tid n w3")
  have "map_of (failed_result step n e3 shot 3 (clock w4)) ''status'' = Some (PStr ''failed'')"
    "map_of (failed_result step n e3 shot 3 (clock w4)) ''error'' = Some (PStr (exn_msg e3))"
    "map_of (failed_result step n e3 shot 3 (clock w4)) ''error_type'' = Some (PStr (exn_type e3))"
    "map_of (failed_result step n e3 shot 3 (clock w4)) ''attempt'' = Some (PInt 3)"
    by (simp_all add: failed_result_def)
  with step_fail[OF a c]
  show "\<exists>r w'. execute_step ops tid step n w = (Inr (Some r), w') \<and>
           map_of r ''status'' = Some (PStr ''failed'') \<and>
           map_of r ''error'' = Some (PStr (exn_msg e3)) \<and>
           map_of r ''error_type'' = Some (PStr (exn_type e3)) \<and>
           map_of r ''attempt'' = Some (PInt 3)"
    by blast
qed

theorem execute_step_contains_faults_witness:
  "execute_action (scripted {} '''') ''t1'' go 1 world0 =
     (Inr (action_result go 1 0 (world0\<lparr>browser_env := 2\<rparr>)), world0\<lparr>browser_env := 2\<rparr>)
   \<and> execute_step (scripted {} '''') ''t1'' go 1 world0 =
       (Inr (Some (dict_set ''status'' (PStr ''passed'') (dict_set ''attempt'' (PInt 1)
               (action_result go 1 0 (world0\<lparr>browser_env := 2\<rparr>))))),
        world0\<lparr>browser_env := 2\<rparr>)
   \<and> execute_action dead_session ''t1'' go 1 world0
        = (Inl session_failed, world0\<lparr>browser_env := 1\<rparr>)
   \<and> map_of (the (projr (fst (execute_step dead_session ''t1'' go 1 world0)))) ''status''
        = Some (PStr ''failed'')
   \<and> map_of (the (projr (fst (execute_step dead_session ''t1'' go 1 world0)))) ''error''
        = Some (PStr ''session failed'')
   \<and> map_of (the (projr (fst (execute_step dead_session ''t1'' go 1 world0)))) ''error_type''
        = Some (PStr ''WebDriverException'')"
proof -
  let ?w1 = "world0\<lparr>browser_env := 1\<rparr>"
  let ?w2 = "world0\<lparr>browser_env := 2, clock := 2, slept := [2]\<rparr>"
  let ?w3 = "world0\<lparr>browser_env := 3, clock := 4, slept := [2, 2]\<rparr>"
  let ?v = "world0\<lparr>browser_env := 2\<rparr>"
  have p: "execute_action (scripted {} '''') ''t1'' go 1 world0 = (Inr (action_result go 1 0 ?v), ?v)"
    by (simp add: eval_defs)
  have a1: "execute_action dead_session ''t1'' go 1 world0 = (Inl session_failed, ?w1)"
    by (simp add: eval_defs)
  have a2: "execute_action dead_session ''t1'' go 1 (slept_for 2 ?w1) = (Inl session_failed, ?w2)"
    by (simp add: eval_defs)
  have a3: "execute_action dead_session ''t1'' go 1 (slept_for 2 ?w2) = (Inl session_failed, ?w3)"
    by (simp add: eval_defs)
  have m: "exn_msg session_failed = ''session failed''" "exn_type session_failed = ''WebDriverException''"
    by (simp_all add: session_failed_def)
  from execute_step_contains_faults[of "scripted {} ''''" "''t1''" go 1 world0 "action_result go 1 0 ?v" ?v]
       execute_step_contains_faults[of dead_session "''t1''" go 1 world0 _ _ session_failed ?w1
         session_failed ?w2 session_failed ?w3]
       p a1 a2 a3 m
  show ?thesis by auto
qed

text \<open>
  C3, as the code has it. When the action raises on all three attempts (the second and
  the third start from the state the fault left, two seconds later), the step result is
  \<open>failed\<close> with \<open>attempt = 3\<close> and the message and class name of the third fault. Its
  screenshot is what the capture helper returned: the path ending in \<open>_FAILED.png\<close> when
  saving the screenshot returned, \<open>None\<close> when saving raised. The loop of the Runner then
  goes on with the remaining steps, one more step counted as failed.
\<close>

theorem three_faults_failed_step:
  assumes "execute_action ops tid step n w = (Inl e1, w1)"
    and "execute_action ops tid step n (slept_for 2 w1) = (Inl e2, w2)"
    and "execute_action ops tid step n (slept_for 2 w2) = (Inl e3, w3)"
    and "capture_failure_screenshot ops tid n w3 = (shot, w4)"
  shows "execute_step ops tid step n w = (Inr (Some (failed_result step n e3 shot 3 (clock w4))), w4)
       \<and> map_of (failed_result step n e3 shot 3 (clock w4)) ''status'' = Some (PStr ''failed'')
       \<and> map_of (failed_result step n e3 shot 3 (clock w4)) ''attempt'' = Some (PInt 3)
       \<and> map_of (failed_result step n e3 shot 3 (clock w4)) ''error'' = Some (PStr (exn_msg e3))
       \<and> map_of (failed_result step n e3 shot 3 (clock w4)) ''error_type'' = Some (PStr (exn_type e3))
       \<and> map_of (failed_result step n e3 shot 3 (clock w4)) ''screenshot'' = Some (opt_str shot)
       \<and> (fst (save_screenshot ops (FAILED_path tid n) (browser_env w3)) = Inr ()
            \<longrightarrow> shot = Some (FAILED_path tid n) \<and> suffix ''_FAILED.png'' (FAILED_path tid n)
                \<and> map_of (failed_result step n e3 shot 3 (clock w4)) ''screenshot''
                    = Some (PStr (FAILED_path tid n)))
       \<and> (fst (save_screenshot ops (FAILED_path tid n) (browser_env w3)) = Inl e4
            \<longrightarrow> shot = None
                \<and> map_of (failed_result step n e3 shot 3 (clock w4)) ''screenshot'' = Some PNone)
       \<and> run_steps ops tid (step # rest) n (rs, p, f) w =
           run_steps ops tid rest (n + 1)
             (rs @ [Some (failed_result step n e3 shot 3 (clock w4))], p, f + 1) w4"
proof -
  have s: "execute_step ops tid step n w = (Inr (Some (failed_result step n e3 shot 3 (clock w4))), w4)"
    using assms by (rule step_fail)
  have m: "map_of (failed_result step n e3 shot 3 (clock w4)) ''status'' = Some (PStr ''failed'')"
    "map_of (failed_result step n e3 shot 3 (clock w4)) ''attempt'' = Some (PInt 3)"
    "map_of (failed_result step n e3 shot 3 (clock w4)) ''error'' = Some (PStr (exn_msg e3))"
    "map_of (failed_result step n e3 shot 3 (clock w4)) ''error_type'' = Some (PStr (exn_type e3))"
    "map_of (failed_result step n e3 shot 3 (clock w4)) ''screenshot'' = Some (opt_str shot)"
    by (simp_all add: failed_result_def)
  have c: "fst (save_screenshot ops (FAILED_path tid n) (browser_env w3)) = Inr ()
            \<longrightarrow> shot = Some (FAILED_path tid n) \<and> suffix ''_FAILED.png'' (FAILED_path tid n)
                \<and> map_of (failed_result step n e3 shot 3 (clock w4)) ''screenshot''
                    = Some (PStr (FAILED_path tid n))"
  proof
    assume "fst (save_screenshot ops (FAILED_path tid n) (browser_env w3)) = Inr ()"
    from capture_ok[OF this] assms(4) have "shot = Some (FAILED_path tid n)" by simp
    moreover have "suffix ''_FAILED.png'' (FAILED_path tid n)"
      unfolding FAILED_path_def suffix_def
      by (rule exI[of _ "SCREENSHOTS_DIR @ ''/'' @ tid @ ''_step_'' @ str_int n"]) simp
    ultimately show "shot = Some (FAILED_path tid n) \<and> suffix ''_FAILED.png'' (FAILED_path tid n)
                \<and> map_of (failed_result step n e3 shot 3 (clock w4)) ''screenshot''
                    = Some (PStr (FAILED_path tid n))"
      using m(5) by (simp add: opt_str_def)
  qed
  have d: "fst (save_screenshot ops (FAILED_path tid n) (browser_env w3)) = Inl e4
            \<longrightarrow> shot = None
                \<and> map_of (failed_result step n e3 shot 3 (clock w4)) ''screenshot'' = Some PNone"
  proof
    assume "fst (save_screenshot ops (FAILED_path tid n) (browser_env w3)) = Inl e4"
    from capture_raises[OF this] assms(4) have "shot = None" by simp
    with m(5) show "shot = None
                \<and> map_of (failed_result step n e3 shot 3 (clock w4)) ''screenshot'' = Some PNone"
      by (simp add: opt_str_def)
  qed
  from s m c d run_steps_failed[OF s, of rest rs p f] show ?thesis
    by (intro conjI) assumption+
qed

theorem three_faults_failed_step_witness:
  "execute_step (scripted {0, 1, 2} '''') ''t1'' go 1 world0 =
     (Inr (Some (failed_result go 1 session_failed (Some ''screenshots/t1_step_1_FAILED.png'') 3 4)),
      world0\<lparr>browser_env := 4, clock := 4, slept := [2, 2],
             screenshot_calls := [''screenshots/t1_step_1_FAILED.png'']\<rparr>)
   \<and> suffix ''_FAILED.png'' ''screenshots/t1_step_1_FAILED.png''
   \<and> map_of (failed_result go 1 session_failed (Some ''screenshots/t1_step_1_FAILED.png'') 3 4)
        ''screenshot'' = Some (PStr ''screenshots/t1_step_1_FAILED.png'')
   \<and> run_steps (scripted {0, 1, 2} '''') ''t1'' [go, go] 1 ([], 0, 0) world0 =
       run_steps (scripted {0, 1, 2} '''') ''t1'' [go] 2
         ([Some (failed_result go 1 session_failed (Some ''screenshots/t1_step_1_FAILED.png'') 3 4)], 0, 1)
         (world0\<lparr>browser_env := 4, clock := 4, slept := [2, 2],
             screenshot_calls := [''screenshots/t1_step_1_FAILED.png'']\<rparr>)
   \<and> fst (save_screenshot dead_session ''screenshots/t1_step_1_FAILED.png'' 3) = Inl session_failed
   \<and> execute_step dead_session ''t1'' go 1 world0 =
     (Inr (Some (failed_result go 1 session_failed None 3 4)),
      world0\<lparr>browser_env := 4, clock := 4, slept := [2, 2],
             screenshot_calls := [''screenshots/t1_step_1_FAILED.png'']\<rparr>)
   \<and> map_of (failed_result go 1 session_failed None 3 4) ''screenshot'' = Some PNone"
proof -
  let ?ops = "scripted {0, 1, 2} ''''"
  let ?w1 = "world0\<lparr>browser_env := 1\<rparr>"
  let ?w2 = "world0\<lparr>browser_env := 2, clock := 2, slept := [2]\<rparr>"
  let ?w3 = "world0\<lparr>browser_env := 3, clock := 4, slept := [2, 2]\<rparr>"
  let ?w4 = "world0\<lparr>browser_env := 4, clock := 4, slept := [2, 2],
             screenshot_calls := [''screenshots/t1_step_1_FAILED.png'']\<rparr>"
  have a1: "execute_action ?ops ''t1'' go 1 world0 = (Inl session_failed, ?w1)"
    by (simp add: eval_defs)
  have a2: "execute_action ?ops ''t1'' go 1 (slept_for 2 ?w1) = (Inl session_failed, ?w2)"
    by (simp add: eval_defs)
  have a3: "execute_action ?ops ''t1'' go 1 (slept_for 2 ?w2) = (Inl session_failed, ?w3)"
    by (simp add: eval_defs)
  have c: "capture_failure_screenshot ?ops ''t1'' 1 ?w3 = (Some ''screenshots/t1_step_1_FAILED.png'', ?w4)"
    by (simp add: eval_defs)
  have ok: "fst (save_screenshot ?ops (FAILED_path ''t1'' 1) (browser_env ?w3)) = Inr ()"
    by (simp add: eval_defs)
  have p: "FAILED_path ''t1'' 1 = ''screenshots/t1_step_1_FAILED.png''"
    by (simp add: eval_defs)
  have b1: "execute_action dead_session ''t1'' go 1 world0 = (Inl session_failed, ?w1)"
    by (simp add: eval_defs)
  have b2: "execute_action dead_session ''t1'' go 1 (slept_for 2 ?w1) = (Inl session_failed, ?w2)"
    by (simp add: eval_defs)
  have b3: "execute_action dead_session ''t1'' go 1 (slept_for 2 ?w2) = (Inl session_failed, ?w3)"
    by (simp add: eval_defs)
  have d: "capture_failure_screenshot dead_session ''t1'' 1 ?w3 = (None, ?w4)"
    by (simp add: eval_defs)
  have no: "fst (save_screenshot dead_session (FAILED_path ''t1'' 1) (browser_env ?w3)) = Inl session_failed"
    "browser_env ?w3 = 3"
    by (simp_all add: eval_defs)
  have first: "execute_step ?ops ''t1'' go 1 world0 =
     (Inr (Some (failed_result go 1 session_failed (Some ''screenshots/t1_step_1_FAILED.png'') 3 4)), ?w4)
   \<and> suffix ''_FAILED.png'' ''screenshots/t1_step_1_FAILED.png''
   \<and> map_of (failed_result go 1 session_failed (Some ''screenshots/t1_step_1_FAILED.png'') 3 4)
        ''screenshot'' = Some (PStr ''screenshots/t1_step_1_FAILED.png'')
   \<and> run_steps ?ops ''t1'' [go, go] 1 ([], 0, 0) world0 =
       run_steps ?ops ''t1'' [go] 2
         ([Some (failed_result go 1 session_failed (Some ''screenshots/t1_step_1_FAILED.png'') 3 4)], 0, 1)
         ?w4"
    using three_faults_failed_step[OF a1 a2 a3 c, of undefined "[go]" "[]" 0 0] ok p
    by (simp add: world0_def opt_str_def failed_result_def del: run_steps.simps)
  have second: "execute_step dead_session ''t1'' go 1 world0 =
     (Inr (Some (failed_result go 1 session_failed None 3 4)), ?w4)
   \<and> map_of (failed_result go 1 session_failed None 3 4) ''screenshot'' = Some PNone"
    using three_faults_failed_step[OF b1 b2 b3 d, of session_failed "[]" "[]" 0 0] no p
    by (simp add: world0_def opt_str_def failed_result_def del: run_steps.simps)
  from first second no p show ?thesis by (simp del: run_steps.simps)
qed

text \<open>
  The claim C3 as the specification words it fails: in a session where every driver call
  raises, a click raises on all three attempts, and the result carries no screenshot path.
\<close>

theorem three_faults_counterexample:
  "fst (execute_action dead_session ''t1'' go 1 world0) = Inl session_failed
   \<and> fst (execute_action dead_session ''t1'' go 1
          (slept_for 2 (snd (execute_action dead_session ''t1'' go 1 world0))))
     = Inl session_failed
   \<and> fst (execute_action dead_session ''t1'' go 1
          (slept_for 2 (snd (execute_action dead_session ''t1'' go 1
             (slept_for 2 (snd (execute_action dead_session ''t1'' go 1 world0)))))))
     = Inl session_failed
   \<and> map_of (the (projr (fst (execute_step dead_session ''t1'' go 1 world0)))) ''screenshot''
       = Some PNone"
  by (simp add: eval_defs)


text \<open>
  C9, as the code has it. Every step result carries a timestamp. A passed result
  carries a duration, measured inside the action; a failed result is built by the
  handler of the retry loop and has no duration.
\<close>

theorem step_result_fields:
  "\<exists>r w'. execute_step ops tid step n w = (Inr (Some r), w') \<and>
     (\<exists>t. map_of r ''timestamp'' = Some (PStamp t)) \<and>
     (map_of r ''status'' = Some (PStr ''passed'') \<longrightarrow> (\<exists>d. map_of r ''duration'' = Some (PSeconds d))) \<and>
     (map_of r ''status'' = Some (PStr ''failed'') \<longrightarrow> map_of r ''duration'' = None)"
proof (cases rule: execute_step_cases[of ops tid step n w])
  case (pass att r w0 w')
  from execute_action_shape[OF pass(2)]
  have "(\<exists>t. map_of r ''timestamp'' = Some (PStamp t)) \<and> (\<exists>d. map_of r ''duration'' = Some (PSeconds d))"
    by (auto simp: action_result_def screenshot_result_def)
  with pass(3) show ?thesis by (simp add: map_of_dict_set)
next
  case (fail e shot w')
  have "map_of (failed_result step n e shot 3 (clock w')) ''timestamp'' = Some (PStamp (clock w'))"
    "map_of (failed_result step n e shot 3 (clock w')) ''status'' = Some (PStr ''failed'')"
    "map_of (failed_result step n e shot 3 (clock w')) ''duration'' = None"
    by (simp_all add: failed_result_def)
  with fail show ?thesis by simp
qed

theorem step_result_fields_witness:
  "map_of (the (projr (fst (execute_step (scripted {} '''') ''t1'' go 1 world0)))) ''status''
     = Some (PStr ''passed'')
   \<and> map_of (the (projr (fst (execute_step (scripted {} '''') ''t1'' go 1 world0)))) ''duration''
     = Some (PSeconds 0)
   \<and> map_of (the (projr (fst (execute_step dead_session ''t1'' go 1 world0)))) ''status''
     = Some (PStr ''failed'')
   \<and> map_of (the (projr (fst (execute_step dead_session ''t1'' go 1 world0)))) ''timestamp''
     = Some (PStamp 4)"
  using step_result_fields[of "scripted {} ''''" "''t1''" go 1 world0]
    step_result_fields[of dead_session "''t1''" go 1 world0]
  by (simp add: eval_defs)

text \<open>
  The claim C9 as the specification words it fails: the result of a step that failed
  has no duration.
\<close>

theorem step_result_fields_counterexample:
  "map_of (the (projr (fst (execute_step dead_session ''t1'' go 1 world0)))) ''status''
     = Some (PStr ''failed'')
   \<and> map_of (the (projr (fst (execute_step dead_session ''t1'' go 1 world0)))) ''duration'' = None"
  by (simp add: eval_defs)

text \<open>
  C10. When the action raises on all three attempts and saving the failure screenshot
  raises as well, that fault stays inside the capture helper: the step result is
  \<open>failed\<close> with \<open>attempt = 3\<close>, and its screenshot is \<open>None\<close>.
\<close>

theorem failed_capture_gives_null:
  assumes "execute_action ops tid step n w = (Inl e1, w1)"
    and "execute_action ops tid step n (slept_for 2 w1) = (Inl e2, w2)"
    and "execute_action ops tid step n (slept_for 2 w2) = (Inl e3, w3)"
    and "fst (save_screenshot ops (FAILED_path tid n) (browser_env w3)) = Inl e4"
  shows "\<exists>w4. execute_step ops tid step n w = (Inr (Some (failed_result step n e3 None 3 (clock w4))), w4)
       \<and> map_of (failed_result step n e3 None 3 (clock w4)) ''status'' = Some (PStr ''failed'')
       \<and> map_of (failed_result step n e3 None 3 (clock w4)) ''attempt'' = Some (PInt 3)
       \<and> map_of (failed_result step n e3 None 3 (clock w4)) ''screenshot'' = Some PNone"
proof -
  obtain shot w4 where c: "capture_failure_screenshot ops tid n w3 = (shot, w4)"
    by (cases "capture_failure_screenshot ops tid n w3")
  with capture_raises[OF assms(4)] have "shot = None" by simp
  with step_fail[OF assms(1-3) c]
  have "execute_step ops tid step n w = (Inr (Some (failed_result step n e3 None 3 (clock w4))), w4)"
    by simp
  moreover have "map_of (failed_result step n e3 None 3 (clock w4)) ''status'' = Some (PStr ''failed'')"
    "map_of (failed_result step n e3 None 3 (clock w4)) ''attempt'' = Some (PInt 3)"
    "map_of (failed_result step n e3 None 3 (clock w4)) ''screenshot'' = Some PNone"
    by (simp_all add: failed_result_def opt_str_def)
  ultimately show ?thesis by blast
qed

theorem failed_capture_gives_null_witness:
  "fst (save_screenshot dead_session (FAILED_path ''t1'' 1) 3) = Inl session_failed
   \<and> fst (execute_step dead_session ''t1'' go 1 world0) =
       Inr (Some (failed_result go 1 session_failed None 3 4))"
proof -
  let ?w1 = "world0\<lparr>browser_env := 1\<rparr>"
  let ?w2 = "world0\<lparr>browser_env := 2, clock := 2, slept := [2]\<rparr>"
  let ?w3 = "world0\<lparr>browser_env := 3, clock := 4, slept := [2, 2]\<rparr>"
  have a1: "execute_action dead_session ''t1'' go 1 world0 = (Inl session_failed, ?w1)"
    by (simp add: eval_defs)
  have a2: "execute_action dead_session ''t1'' go 1 (slept_for 2 ?w1) = (Inl session_failed, ?w2)"
    by (simp add: eval_defs)
  have a3: "execute_action dead_session ''t1'' go 1 (slept_for 2 ?w2) = (Inl session_failed, ?w3)"
    by (simp add: eval_defs)
  have c: "fst (save_screenshot dead_session (FAILED_path ''t1'' 1) (browser_env ?w3)) = Inl session_failed"
    by (simp add: eval_defs)
  have e: "browser_env ?w3 = 3" by (simp add: world0_def)
  from failed_capture_gives_null[OF a1 a2 a3 c] obtain w4 where
    s: "execute_step dead_session ''t1'' go 1 world0
          = (Inr (Some (failed_result go 1 session_failed None 3 (clock w4))), w4)" by blast
  have "clock (snd (execute_step dead_session ''t1'' go 1 world0)) = 4"
    by (simp add: eval_defs)
  with s have "clock w4 = 4" by simp
  with s c e show ?thesis by simp
qed

text \<open>
  C4. The loop makes at most three attempts. When the action raises on the first two
  and returns on the third, each retry starting two seconds after the fault before it,
  the step result is \<open>passed\<close> with \<open>attempt = 3\<close>, the state is the one the third
  attempt left, and a failure screenshot that had not been asked for before the step has
  not been asked for after it.
\<close>

theorem at_most_three_attempts:
  "(\<exists>r w'. execute_step ops tid step n w = (Inr (Some r), w') \<and>
       (map_of r ''attempt'' = Some (PInt 1) \<or> map_of r ''attempt'' = Some (PInt 2)
        \<or> map_of r ''attempt'' = Some (PInt 3)))
   \<and> (execute_action ops tid step n w = (Inl e1, w1) \<longrightarrow>
      execute_action ops tid step n (slept_for 2 w1) = (Inl e2, w2) \<longrightarrow>
      execute_action ops tid step n (slept_for 2 w2) = (Inr r3, w3) \<longrightarrow>
        execute_step ops tid step n w =
          (Inr (Some (dict_set ''status'' (PStr ''passed'') (dict_set ''attempt'' (PInt 3) r3))), w3)
        \<and> map_of (dict_set ''status'' (PStr ''passed'') (dict_set ''attempt'' (PInt 3) r3)) ''status''
            = Some (PStr ''passed'')
        \<and> map_of (dict_set ''status'' (PStr ''passed'') (dict_set ''attempt'' (PInt 3) r3)) ''attempt''
            = Some (PInt 3)
        \<and> slept (slept_for 2 w1) = slept w1 @ [2] \<and> slept (slept_for 2 w2) = slept w2 @ [2]
        \<and> (FAILED_path tid n \<notin> set (screenshot_calls w)
             \<longrightarrow> FAILED_path tid n \<notin> set (screenshot_calls w3)))"
proof -
  have "\<exists>r w'. execute_step ops tid step n w = (Inr (Some r), w') \<and>
       (map_of r ''attempt'' = Some (PInt 1) \<or> map_of r ''attempt'' = Some (PInt 2)
        \<or> map_of r ''attempt'' = Some (PInt 3))"
  proof (cases rule: execute_step_cases[of ops tid step n w])
    case (pass att r w0 w')
    then show ?thesis by (auto simp: map_of_dict_set)
  next
    case (fail e shot w')
    have "map_of (failed_result step n e shot 3 (clock w')) ''attempt'' = Some (PInt 3)"
      by (simp add: failed_result_def)
    with fail show ?thesis by blast
  qed
  moreover have "map_of (dict_set ''status'' (PStr ''passed'') (dict_set ''attempt'' (PInt 3) r3)) ''status''
            = Some (PStr ''passed'')"
    "map_of (dict_set ''status'' (PStr ''passed'') (dict_set ''attempt'' (PInt 3) r3)) ''attempt''
            = Some (PInt 3)"
    by (simp_all add: map_of_dict_set)
  moreover have "FAILED_path tid n \<notin> set (screenshot_calls w3)"
    if a: "execute_action ops tid step n w = (Inl e1, w1)"
      "execute_action ops tid step n (slept_for 2 w1) = (Inl e2, w2)"
      "execute_action ops tid step n (slept_for 2 w2) = (Inr r3, w3)"
      and f: "FAILED_path tid n \<notin> set (screenshot_calls w)"
  proof -
    from execute_action_no_FAILED[OF a(1) f]
    have "FAILED_path tid n \<notin> set (screenshot_calls (slept_for 2 w1))" by (simp add: slept_for_def)
    from execute_action_no_FAILED[OF a(2) this]
    have "FAILED_path tid n \<notin> set (screenshot_calls (slept_for 2 w2))" by (simp add: slept_for_def)
    from execute_action_no_FAILED[OF a(3) this] show ?thesis .
  qed
  ultimately show ?thesis
    using step_pass3[of ops tid step n w e1 w1 e2 w2 r3 w3] by (simp add: slept_for_def)
qed

theorem at_most_three_attempts_witness:
  "execute_action (scripted {0, 1} '''') ''t1'' go 1 world0
     = (Inl session_failed, world0\<lparr>browser_env := 1\<rparr>)
   \<and> execute_action (scripted {0, 1} '''') ''t1'' go 1 (slept_for 2 (world0\<lparr>browser_env := 1\<rparr>))
     = (Inl session_failed, world0\<lparr>browser_env := 2, clock := 2, slept := [2]\<rparr>)
   \<and> execute_action (scripted {0, 1} '''') ''t1'' go 1
        (slept_for 2 (world0\<lparr>browser_env := 2, clock := 2, slept := [2]\<rparr>))
     = (Inr (action_result go 1 4 (world0\<lparr>browser_env := 4, clock := 4, slept := [2, 2]\<rparr>)),
        world0\<lparr>browser_env := 4, clock := 4, slept := [2, 2]\<rparr>)
   \<and> execute_step (scripted {0, 1} '''') ''t1'' go 1 world0 =
       (Inr (Some (dict_set ''status'' (PStr ''passed'') (dict_set ''attempt'' (PInt 3)
               (action_result go 1 4 (world0\<lparr>browser_env := 4, clock := 4, slept := [2, 2]\<rparr>))))),
        world0\<lparr>browser_env := 4, clock := 4, slept := [2, 2]\<rparr>)
   \<and> FAILED_path ''t1'' 1 \<notin> set (screenshot_calls world0)
   \<and> FAILED_path ''t1'' 1 \<notin> set (screenshot_calls (world0\<lparr>browser_env := 4, clock := 4, slept := [2, 2]\<rparr>))"
proof -
  let ?ops = "scripted {0, 1} ''''"
  let ?w1 = "world0\<lparr>browser_env := 1\<rparr>"
  let ?w2 = "world0\<lparr>browser_env := 2, clock := 2, slept := [2]\<rparr>"
  let ?w3 = "world0\<lparr>browser_env := 4, clock := 4, slept := [2, 2]\<rparr>"
  have a1: "execute_action ?ops ''t1'' go 1 world0 = (Inl session_failed, ?w1)"
    by (simp add: eval_defs)
  have a2: "execute_action ?ops ''t1'' go 1 (slept_for 2 ?w1) = (Inl session_failed, ?w2)"
    by (simp add: eval_defs)
  have a3: "execute_action ?ops ''t1'' go 1 (slept_for 2 ?w2) = (Inr (action_result go 1 4 ?w3), ?w3)"
    by (simp add: eval_defs)
  have s: "FAILED_path ''t1'' 1 \<notin> set (screenshot_calls world0)" by (simp add: world0_def)
  from at_most_three_attempts[of ?ops "''t1''" go 1 world0 session_failed ?w1 session_failed ?w2
      "action_result go 1 4 ?w3" ?w3] a1 a2 a3 s
  show ?thesis by simp
qed

text \<open>
  C7. A \<open>verify\<close> step with a selector and a value, on a page where the element is
  located and shows the text \<open>txt\<close> whenever the step looks: the action returns exactly
  when the value occurs in \<open>txt\<close> as a contiguous run, and so the step passes exactly
  then. When the value does not occur, the step fails on its third attempt, and the
  class name it reports is \<open>AssertionError\<close>, not the \<open>ValueError\<close> of a missing field.
\<close>

theorem verify_substring:
  assumes "action step = ''verify''" "selector step = Some sel" "sel \<noteq> []"
    and "step_value step = Some v" "v \<noteq> []"
    and located: "\<And>d. \<exists>el d1 d2. wait_visible ops sel (timeout_or (timeout step) 10) d = (Inr el, d1)
                     \<and> text_of ops el d1 = (Inr txt, d2)"
  shows "((\<exists>r w'. execute_action ops tid step n w = (Inr r, w')) \<longleftrightarrow> (\<exists>p s. txt = p @ v @ s))
       \<and> (\<exists>r w'. execute_step ops tid step n w = (Inr (Some r), w') \<and>
            (map_of r ''status'' = Some (PStr ''passed'') \<longleftrightarrow> (\<exists>p s. txt = p @ v @ s)) \<and>
            ((\<nexists>p s. txt = p @ v @ s) \<longrightarrow>
               map_of r ''status'' = Some (PStr ''failed'') \<and>
               map_of r ''attempt'' = Some (PInt 3) \<and>
               map_of r ''error_type'' = Some (PStr ''AssertionError'') \<and>
               map_of r ''error_type'' \<noteq> Some (PStr ''ValueError'')))"
proof -
  let ?e = "Exn ''AssertionError''
              (''Expected '' @ [CHR 0x27] @ v @ [CHR 0x27] @ '' not found in element text: ''
               @ [CHR 0x27] @ txt @ [CHR 0x27])"
  have act: "\<exists>d2. execute_action ops tid step n x =
           (if str_in v txt
            then (Inr (action_result step n (clock x) (x\<lparr>browser_env := d2\<rparr>)), x\<lparr>browser_env := d2\<rparr>)
            else (Inl ?e, x\<lparr>browser_env := d2\<rparr>))" for x
  proof -
    from located[of "browser_env x"] obtain el d1 d2 where
      "wait_visible ops sel (timeout_or (timeout step) 10) (browser_env x) = (Inr el, d1)"
      "text_of ops el d1 = (Inr txt, d2)" by blast
    from verify_action[OF assms(1-5) this] show ?thesis by blast
  qed
  show ?thesis
  proof (cases "str_in v txt")
    case True
    from act[of w] True obtain d2 where
      a: "execute_action ops tid step n w =
            (Inr (action_result step n (clock w) (w\<lparr>browser_env := d2\<rparr>)), w\<lparr>browser_env := d2\<rparr>)"
      by auto
    from step_pass1[OF a] a True show ?thesis
      by (simp add: map_of_dict_set str_in_iff[symmetric])
  next
    case False
    from act[of w] False obtain w1 where a1: "execute_action ops tid step n w = (Inl ?e, w1)"
      by auto
    from act[of "slept_for 2 w1"] False obtain w2 where
      a2: "execute_action ops tid step n (slept_for 2 w1) = (Inl ?e, w2)" by auto
    from act[of "slept_for 2 w2"] False obtain w3 where
      a3: "execute_action ops tid step n (slept_for 2 w2) = (Inl ?e, w3)" by auto
    obtain shot w4 where c: "capture_failure_screenshot ops tid n w3 = (shot, w4)"
      by (cases "capture_failure_screenshot ops tid n w3")
    from step_fail[OF a1 a2 a3 c] a1 False show ?thesis
      by (simp add: failed_result_def str_in_iff[symmetric])
  qed
qed

theorem verify_substring_witness:
  "map_of (the (projr (fst (execute_step (scripted {} ''Welcome, User'') ''t1'' verify_welcome 1 world0))))
      ''status'' = Some (PStr ''passed'')
   \<and> map_of (the (projr (fst (execute_step (scripted {} ''Goodbye'') ''t1'' verify_welcome 1 world0))))
      ''status'' = Some (PStr ''failed'')
   \<and> map_of (the (projr (fst (execute_step (scripted {} ''Goodbye'') ''t1'' verify_welcome 1 world0))))
      ''error_type'' = Some (PStr ''AssertionError'')
   \<and> map_of (the (projr (fst (execute_step (scripted {} ''Goodbye'') ''t1'' verify_welcome 1 world0))))
      ''attempt'' = Some (PInt 3)"
proof -
  have s: "action verify_welcome = ''verify''" "selector verify_welcome = Some ''h1''" "''h1'' \<noteq> []"
    "step_value verify_welcome = Some ''Welcome''" "''Welcome'' \<noteq> []"
    by (simp_all add: verify_welcome_def a_step_def)
  have l: "\<exists>el d1 d2. wait_visible (scripted {} shown) ''h1'' (timeout_or (timeout verify_welcome) 10) d = (Inr el, d1)
                     \<and> text_of (scripted {} shown) el d1 = (Inr shown, d2)" for d shown
    by (simp add: scripted_def scripted_call_def)
  have yes: "\<exists>p s. ''Welcome, User'' = p @ ''Welcome'' @ s"
    by (rule exI[of _ "[]"], rule exI[of _ "'', User''"]) simp
  have no: "\<nexists>p s. ''Goodbye'' = p @ ''Welcome'' @ s"
    unfolding str_in_iff[symmetric] by simp
  from verify_substring[OF s l, of "''Welcome, User''" "''t1''" 1 world0]
       verify_substring[OF s l, of "''Goodbye''" "''t1''" 1 world0] yes no
  show ?thesis by auto
qed




section \<open>The Test Runner\<close>

lemma execute_step_returns:
  "\<exists>r w'. execute_step ops tid step n w = (Inr (Some r), w') \<and>
     (map_of r ''status'' = Some (PStr ''passed'') \<or> map_of r ''status'' = Some (PStr ''failed''))"
proof (cases rule: execute_step_cases[of ops tid step n w])
  case (pass att r w0 w')
  then show ?thesis by (simp add: map_of_dict_set)
next
  case (fail e shot w')
  have "map_of (failed_result step n e shot 3 (clock w')) ''status'' = Some (PStr ''failed'')"
    by (simp add: failed_result_def)
  with fail show ?thesis by blast
qed

lemma run_steps_counts:
  "\<exists>rs p f w'. run_steps ops tid ss idx (rs0, p0, f0) w = (Inr (rs, p, f), w') \<and>
     p + f = p0 + f0 + int (length ss) \<and> length rs = length rs0 + length ss"
proof (induction ss arbitrary: idx rs0 p0 f0 w)
  case Nil
  show ?case by simp
next
  case (Cons step rest)
  obtain r w1 where s: "execute_step ops tid step idx w = (Inr (Some r), w1)"
    and st: "map_of r ''status'' = Some (PStr ''passed'') \<or> map_of r ''status'' = Some (PStr ''failed'')"
    using execute_step_returns[of ops tid step idx w] by blast
  from st show ?case
  proof
    assume "map_of r ''status'' = Some (PStr ''passed'')"
    with s have "run_steps ops tid (step # rest) idx (rs0, p0, f0) w =
        run_steps ops tid rest (idx + 1) (rs0 @ [Some r], p0 + 1, f0) w1"
      by (simp add: getitem_def)
    with Cons.IH[of "idx + 1" "rs0 @ [Some r]" "p0 + 1" f0 w1] show ?case by auto
  next
    assume "map_of r ''status'' = Some (PStr ''failed'')"
    with s have "run_steps ops tid (step # rest) idx (rs0, p0, f0) w =
        run_steps ops tid rest (idx + 1) (rs0 @ [Some r], p0, f0 + 1) w1"
      by (simp add: getitem_def)
    with Cons.IH[of "idx + 1" "rs0 @ [Some r]" p0 "f0 + 1" w1] show ?case by auto
  qed
qed

lemma run_steps_sum:
  assumes "run_steps ops tid ss idx (rs0, p0, f0) w = (Inr (rs, p, f), w')"
  shows "p + f = p0 + f0 + int (length ss)"
  using run_steps_counts[of ops tid ss idx rs0 p0 f0 w] assms by auto

lemma try_block_result:
  assumes "try_block ops req st w = (Inr res, drv, w1)"
  shows "(status res = ''PASS'' \<or> status res = ''FAIL'')
       \<and> steps_executed res = steps_passed res + steps_failed res"
  using assms unfolding try_block_def Let_def
  by (auto split: prod.splits sum.splits if_splits dest!: run_steps_sum)

lemma except_block_result:
  "fst (except_block ops req st e drv w) =
     \<lparr>result_test_id = test_id req, status = ''ERROR'', duration = clock w - st,
      steps_executed = 0, steps_passed = 0, steps_failed = 0,
      error_message = Some (exn_type e @ '': '' @ exn_msg e),
      screenshot_url = (case drv of None \<Rightarrow> None
                         | Some _ \<Rightarrow> Some (ERROR_path req)),
      timestamp = clock w, detailed_results = []\<rparr>"
  by (cases drv)
     (simp_all add: except_block_def Let_def take_screenshot_def call_def split: prod.splits)

lemmas run_defs = execute_test_def try_block_def except_block_def finally_block_def deregister_def
  add_webhook_task_def getitem_def

text \<open>
  C1. The status of a run is \<open>PASS\<close>, \<open>FAIL\<close> or \<open>ERROR\<close>. When it is \<open>PASS\<close> or
  \<open>FAIL\<close>, the steps executed are the steps passed plus the steps failed; when it is
  \<open>ERROR\<close>, all three counts are 0.
\<close>

theorem step_counts_add_up:
  "(status (fst (execute_test ops request w)) = ''PASS''
      \<or> status (fst (execute_test ops request w)) = ''FAIL''
      \<or> status (fst (execute_test ops request w)) = ''ERROR'')
   \<and> (status (fst (execute_test ops request w)) = ''PASS''
        \<or> status (fst (execute_test ops request w)) = ''FAIL'' \<longrightarrow>
      steps_executed (fst (execute_test ops request w)) =
        steps_passed (fst (execute_test ops request w)) + steps_failed (fst (execute_test ops request w)))
   \<and> (status (fst (execute_test ops request w)) = ''ERROR'' \<longrightarrow>
      steps_executed (fst (execute_test ops request w)) = 0 \<and>
      steps_passed (fst (execute_test ops request w)) = 0 \<and>
      steps_failed (fst (execute_test ops request w)) = 0)"
proof (cases "try_block ops request (clock w) w")
  case (fields x drv w1)
  show ?thesis
  proof (cases x)
    case (Inr res)
    with fields have "fst (execute_test ops request w) = res"
      by (simp add: execute_test_def)
    with try_block_result[of ops request "clock w" w res drv w1] fields Inr show ?thesis by auto
  next
    case (Inl e)
    with fields have "fst (execute_test ops request w) = fst (except_block ops request (clock w) e drv w1)"
      by (simp add: execute_test_def split: prod.splits)
    then show ?thesis by (simp add: except_block_result)
  qed
qed

theorem step_counts_add_up_witness:
  "status (fst (execute_test (scripted {} '''') two_steps world0)) = ''FAIL''
   \<and> steps_executed (fst (execute_test (scripted {} '''') two_steps world0)) = 2
   \<and> steps_passed (fst (execute_test (scripted {} '''') two_steps world0)) = 1
   \<and> steps_failed (fst (execute_test (scripted {} '''') two_steps world0)) = 1
   \<and> status (fst (execute_test dead_session two_steps world0)) = ''ERROR''
   \<and> steps_executed (fst (execute_test dead_session two_steps world0)) = 0"
proof -
  have f: "status (fst (execute_test (scripted {} '''') two_steps world0)) = ''FAIL''"
    "steps_passed (fst (execute_test (scripted {} '''') two_steps world0)) = 1"
    "steps_failed (fst (execute_test (scripted {} '''') two_steps world0)) = 1"
    by (simp_all add: run_defs eval_defs two_steps_def)
  have e: "status (fst (execute_test dead_session two_steps world0)) = ''ERROR''"
    by (simp add: run_defs eval_defs two_steps_def)
  from step_counts_add_up[of "scripted {} ''''" two_steps world0]
       step_counts_add_up[of dead_session two_steps world0] f e
  show ?thesis by simp
qed

lemma try_block_creation_fault:
  assumes "Driver ops (browser req) (headless req) (browser_env w) = (Inl e, d1)"
  shows "try_block ops req st w = (Inl e, None, w\<lparr>browser_env := d1\<rparr>)"
  using assms by (simp add: try_block_def call_def)

lemma try_block_navigation_fault:
  assumes "Driver ops (browser req) (headless req) (browser_env w) = (Inr (), d1)"
    and "uuid4 ops d1 = (sid, d2)"
    and "drv_get ops (Some (url req)) d2 = (Inl e, d3)"
  shows "try_block ops req st w =
           (Inl e, Some (next_obj w),
            w\<lparr>browser_env := d3, next_obj := next_obj w + 1,
              active_drivers := dict_set sid (next_obj w) (active_drivers w)\<rparr>)"
  using assms by (simp add: try_block_def call_def Let_def)

lemma browser_env_add_webhook_task [simp]:
  "browser_env (add_webhook_task req res w) = browser_env w"
  by (simp add: add_webhook_task_def)

lemma active_drivers_add_webhook_task [simp]:
  "active_drivers (add_webhook_task req res w) = active_drivers w"
  by (simp add: add_webhook_task_def)

lemma except_block_world:
  "browser_env (snd (except_block ops req st e drv w)) =
     (case drv of None \<Rightarrow> browser_env w
      | Some _ \<Rightarrow> snd (save_screenshot ops (ERROR_path req) (browser_env w)))"
  "active_drivers (snd (except_block ops req st e drv w)) = active_drivers w"
  by (cases drv; simp add: except_block_def Let_def take_screenshot_def call_def split: prod.splits)+

lemma finally_block_env:
  "browser_env (finally_block ops (Some drv) w) = snd (drv_quit ops (browser_env w))"
  by (simp add: finally_block_def call_def split: prod.splits sum.splits)

lemma execute_test_fault:
  assumes "try_block ops req (clock w) w = (Inl e, drv, w1)"
  shows "fst (execute_test ops req w) = fst (except_block ops req (clock w) e drv w1)"
    and "snd (execute_test ops req w) = finally_block ops drv (snd (except_block ops req (clock w) e drv w1))"
  using assms by (simp_all add: execute_test_def split: prod.splits)

text \<open>
  C5. When \<open>Driver(...)\<close> raises, the run returns one result with status \<open>ERROR\<close>, the
  class name and message of the fault as error message, the three counts 0, no step
  results and no screenshot path; nothing else is asked of the driver and the registry is
  untouched. When the session opens and the navigation to \<open>url\<close> raises, the result is the
  same but for the screenshot path, which is the \<open>_ERROR.png\<close> path; the driver is asked
  for that screenshot and to quit, and for nothing else. In both cases the endpoint
  returns the result; it raises nothing.
\<close>

theorem run_level_fault_gives_ERROR:
  "(Driver ops (browser request) (headless request) (browser_env w) = (Inl e, d1) \<longrightarrow>
      status (fst (execute_test ops request w)) = ''ERROR''
      \<and> error_message (fst (execute_test ops request w)) = Some (exn_type e @ '': '' @ exn_msg e)
      \<and> steps_executed (fst (execute_test ops request w)) = 0
      \<and> steps_passed (fst (execute_test ops request w)) = 0
      \<and> steps_failed (fst (execute_test ops request w)) = 0
      \<and> detailed_results (fst (execute_test ops request w)) = []
      \<and> screenshot_url (fst (execute_test ops request w)) = None
      \<and> browser_env (snd (execute_test ops request w)) = d1
      \<and> active_drivers (snd (execute_test ops request w)) = active_drivers w)
   \<and> (Driver ops (browser request) (headless request) (browser_env w) = (Inr (), d1) \<longrightarrow>
      uuid4 ops d1 = (sid, d2) \<longrightarrow>
      drv_get ops (Some (url request)) d2 = (Inl e, d3) \<longrightarrow>
      status (fst (execute_test ops request w)) = ''ERROR''
      \<and> error_message (fst (execute_test ops request w)) = Some (exn_type e @ '': '' @ exn_msg e)
      \<and> steps_executed (fst (execute_test ops request w)) = 0
      \<and> steps_passed (fst (execute_test ops request w)) = 0
      \<and> steps_failed (fst (execute_test ops request w)) = 0
      \<and> detailed_results (fst (execute_test ops request w)) = []
      \<and> screenshot_url (fst (execute_test ops request w)) = Some (ERROR_path request)
      \<and> browser_env (snd (execute_test ops request w)) =
          snd (drv_quit ops (snd (save_screenshot ops (ERROR_path request) d3))))"
proof (intro conjI impI)
  assume "Driver ops (browser request) (headless request) (browser_env w) = (Inl e, d1)"
  from execute_test_fault[OF try_block_creation_fault[OF this, of "clock w"]]
  show "status (fst (execute_test ops request w)) = ''ERROR''"
    "error_message (fst (execute_test ops request w)) = Some (exn_type e @ '': '' @ exn_msg e)"
    "steps_executed (fst (execute_test ops request w)) = 0"
    "steps_passed (fst (execute_test ops request w)) = 0"
    "steps_failed (fst (execute_test ops request w)) = 0"
    "detailed_results (fst (execute_test ops request w)) = []"
    "screenshot_url (fst (execute_test ops request w)) = None"
    "browser_env (snd (execute_test ops request w)) = d1"
    "active_drivers (snd (execute_test ops request w)) = active_drivers w"
    by (simp_all add: except_block_result except_block_world finally_block_def)
next
  assume "Driver ops (browser request) (headless request) (browser_env w) = (Inr (), d1)"
    "uuid4 ops d1 = (sid, d2)" "drv_get ops (Some (url request)) d2 = (Inl e, d3)"
  from execute_test_fault[OF try_block_navigation_fault[OF this, of "clock w"]]
  show "status (fst (execute_test ops request w)) = ''ERROR''"
    "error_message (fst (execute_test ops request w)) = Some (exn_type e @ '': '' @ exn_msg e)"
    "steps_executed (fst (execute_test ops request w)) = 0"
    "steps_passed (fst (execute_test ops request w)) = 0"
    "steps_failed (fst (execute_test ops request w)) = 0"
    "detailed_results (fst (execute_test ops request w)) = []"
    "screenshot_url (fst (execute_test ops request w)) = Some (ERROR_path request)"
    "browser_env (snd (execute_test ops request w)) =
          snd (drv_quit ops (snd (save_screenshot ops (ERROR_path request) d3)))"
    by (simp_all add: except_block_result except_block_world finally_block_env)
qed

theorem run_level_fault_gives_ERROR_witness:
  "Driver dead_session (browser no_steps) (headless no_steps) (browser_env world0)
     = (Inl session_failed, 1)
   \<and> status (fst (execute_test dead_session no_steps world0)) = ''ERROR''
   \<and> error_message (fst (execute_test dead_session no_steps world0))
       = Some ''WebDriverException: session failed''
   \<and> screenshot_url (fst (execute_test dead_session no_steps world0)) = None
   \<and> Driver (scripted {1} '''') (browser no_steps) (headless no_steps) (browser_env world0)
       = (Inr (), 1)
   \<and> uuid4 (scripted {1} '''') 1 = (''session'', 1)
   \<and> drv_get (scripted {1} '''') (Some (url no_steps)) 1 = (Inl session_failed, 2)
   \<and> status (fst (execute_test (scripted {1} '''') no_steps world0)) = ''ERROR''
   \<and> screenshot_url (fst (execute_test (scripted {1} '''') no_steps world0))
       = Some ''screenshots/t1_ERROR.png''
   \<and> browser_env (snd (execute_test (scripted {1} '''') no_steps world0)) = 4"
proof -
  have a: "Driver dead_session (browser no_steps) (headless no_steps) (browser_env world0)
     = (Inl session_failed, 1)"
    by (simp add: eval_defs no_steps_def)
  have b: "Driver (scripted {1} '''') (browser no_steps) (headless no_steps) (browser_env world0)
       = (Inr (), 1)"
    "uuid4 (scripted {1} '''') 1 = (''session'', 1)"
    "drv_get (scripted {1} '''') (Some (url no_steps)) 1 = (Inl session_failed, 2)"
    by (simp_all add: eval_defs no_steps_def)
  have c: "exn_type session_failed @ '': '' @ exn_msg session_failed = ''WebDriverException: session failed''"
    "ERROR_path no_steps = ''screenshots/t1_ERROR.png''"
    "snd (drv_quit (scripted {1} '''') (snd (save_screenshot (scripted {1} '''') ''screenshots/t1_ERROR.png'' 2))) = 4"
    by (simp_all add: eval_defs no_steps_def)
  from run_level_fault_gives_ERROR[of dead_session no_steps world0 session_failed 1]
       run_level_fault_gives_ERROR[of "scripted {1} ''''" no_steps world0 session_failed 1 "''session''" 1 2]
       a b c
  show ?thesis by simp
qed

subsection \<open>The session registry\<close>

lemma call_registry: "call f w = (r, w') \<Longrightarrow> active_drivers w' = active_drivers w"
  by (auto simp: call_def split: prod.splits)

lemma snd_call_registry: "active_drivers (snd (call f w)) = active_drivers w"
  by (auto simp: call_def split: prod.splits)

lemma snd_time_sleep_registry: "active_drivers (snd (time_sleep ops s w)) = active_drivers w"
  by (auto simp: time_sleep_def slept_for_def split: option.splits)

lemma take_screenshot_registry:
  "take_screenshot ops p w = (r, w') \<Longrightarrow> active_drivers w' = active_drivers w"
  by (auto simp: take_screenshot_def call_def split: prod.splits)

lemma execute_action_registry:
  assumes "execute_action ops tid step n w = (r, w')"
  shows "active_drivers w' = active_drivers w"
proof -
  consider (open_url) "action step = ''open_url''" | (click) "action step = ''click''"
    | (type_text) "action step = ''type_text''" | (verify) "action step = ''verify''"
    | (wait) "action step = ''wait''" | (screenshot) "action step = ''screenshot''"
    | (other) "action step \<notin> {''open_url'', ''click'', ''type_text'', ''verify'', ''wait'', ''screenshot''}"
    by blast
  then show ?thesis
  proof cases
    case open_url
    with assms show ?thesis
      by (auto simp: execute_action_def Let_def snd_time_sleep_registry split: prod.splits sum.splits
          dest!: call_registry finish_world)
  next
    case click
    with assms show ?thesis
      by (auto simp: execute_action_def Let_def snd_call_registry split: if_splits prod.splits sum.splits
          dest!: call_registry finish_world)
  next
    case type_text
    with assms show ?thesis
      by (auto simp: execute_action_def Let_def snd_call_registry split: if_splits prod.splits sum.splits
          dest!: call_registry finish_world)
  next
    case verify
    with assms show ?thesis
      by (auto simp: execute_action_def Let_def snd_call_registry split: if_splits prod.splits sum.splits
          dest!: call_registry)
  next
    case wait
    with assms show ?thesis
      by (auto simp: execute_action_def Let_def snd_time_sleep_registry
          split: if_splits prod.splits sum.splits option.splits dest!: finish_world)
  next
    case screenshot
    with assms show ?thesis
      by (auto simp: execute_action_def Let_def split: prod.splits sum.splits
          dest!: take_screenshot_registry)
  next
    case other
    with assms show ?thesis by (auto simp: execute_action_def Let_def)
  qed
qed

lemma capture_registry:
  "capture_failure_screenshot ops tid n w = (shot, w') \<Longrightarrow> active_drivers w' = active_drivers w"
  by (auto simp: capture_failure_screenshot_def Let_def split: prod.splits sum.splits
      dest!: take_screenshot_registry)

lemma retry_loop_registry:
  "retry_loop ops tid step n as w = (r, w') \<Longrightarrow> active_drivers w' = active_drivers w"
proof (induction as arbitrary: w)
  case Nil
  then show ?case by simp
next
  case (Cons a as)
  obtain x w1 where ea: "execute_action ops tid step n w = (x, w1)"
    by (cases "execute_action ops tid step n w")
  note reg1 = execute_action_registry[OF ea]
  show ?case
  proof (cases x)
    case (Inr res)
    with Cons.prems ea reg1 show ?thesis by auto
  next
    case (Inl e)
    show ?thesis
    proof (cases "a < max_retries")
      case True
      with Cons.prems ea Inl have "retry_loop ops tid step n as (slept_for 2 w1) = (r, w')"
        by (simp add: time_sleep_retry)
      from Cons.IH[OF this] reg1 show ?thesis by (simp add: slept_for_def)
    next
      case False
      obtain shot w2 where c: "capture_failure_screenshot ops tid n w1 = (shot, w2)"
        by (cases "capture_failure_screenshot ops tid n w1")
      with Cons.prems ea Inl False have "w' = w2" by simp
      with capture_registry[OF c] reg1 show ?thesis by simp
    qed
  qed
qed

lemma run_steps_registry:
  "run_steps ops tid ss idx acc w = (r, w') \<Longrightarrow> active_drivers w' = active_drivers w"
proof (induction ss arbitrary: idx acc w)
  case Nil
  then show ?case by simp
next
  case (Cons step rest)
  obtain rs p f where acc: "acc = (rs, p, f)" by (cases acc)
  obtain x w1 where es: "execute_step ops tid step idx w = (x, w1)"
    by (cases "execute_step ops tid step idx w")
  then have reg1: "active_drivers w1 = active_drivers w"
    unfolding execute_step_def by (rule retry_loop_registry)
  from Cons.prems acc es have
    "(r, w') = (case x of Inl e \<Rightarrow> (Inl e, w1)
       | Inr sr \<Rightarrow> (case getitem sr ''status'' of Inl e \<Rightarrow> (Inl e, w1)
           | Inr st \<Rightarrow> if st = PStr ''passed''
               then run_steps ops tid rest (idx + 1) (rs @ [sr], p + 1, f) w1
               else run_steps ops tid rest (idx + 1) (rs @ [sr], p, f + 1) w1))"
    by simp
  with reg1 show ?case
    by (auto split: sum.splits if_splits dest!: Cons.IH[OF sym])
qed

lemma dict_set_fresh: "k \<notin> fst ` set kvs \<Longrightarrow> dict_set k v kvs = kvs @ [(k, v)]"
  by (induction kvs) auto

lemma dict_del_last: "k \<notin> fst ` set kvs \<Longrightarrow> dict_del k (kvs @ [(k, v)]) = kvs"
  by (induction kvs) auto

lemma fold_keep:
  "drv \<notin> snd ` set xs \<Longrightarrow>
     fold (\<lambda>(sid, d) m. if d = drv then dict_del sid m else m) xs m = m"
  by (induction xs arbitrary: m) auto

lemma deregister_fresh:
  assumes "sid \<notin> fst ` set reg" "drv \<notin> snd ` set reg"
  shows "deregister drv (dict_set sid drv reg) = reg"
  using assms by (simp add: deregister_def dict_set_fresh fold_keep dict_del_last)

lemma try_block_registry:
  assumes "try_block ops req st w = (x, drv, w1)"
  shows "(drv = None \<and> active_drivers w1 = active_drivers w) \<or>
         (drv = Some (next_obj w) \<and>
          active_drivers w1 =
            dict_set (fst (uuid4 ops (snd (Driver ops (browser req) (headless req) (browser_env w)))))
              (next_obj w) (active_drivers w))"
  using assms unfolding try_block_def Let_def
  by (auto simp: call_def split: prod.splits sum.splits dest!: run_steps_registry)

text \<open>
  Where \<open>driver.quit()\<close> returns, the run leaves the registry as it found it, on every
  exit path: the session identifier drawn is new, and so is the driver object.
\<close>

lemma registry_restored_when_quit_returns:
  assumes quit: "\<And>d. fst (drv_quit ops d) = Inr ()"
    and fresh_id: "fst (uuid4 ops (snd (Driver ops (browser req) (headless req) (browser_env w))))
                    \<notin> fst ` set (active_drivers w)"
    and fresh_obj: "next_obj w \<notin> snd ` set (active_drivers w)"
  shows "active_drivers (snd (execute_test ops req w)) = active_drivers w"
proof -
  obtain x drv w1 where tb: "try_block ops req (clock w) w = (x, drv, w1)"
    by (cases "try_block ops req (clock w) w")
  define w2 where "w2 = (case x of Inr res \<Rightarrow> w1 | Inl e \<Rightarrow> snd (except_block ops req (clock w) e drv w1))"
  have final: "snd (execute_test ops req w) = finally_block ops drv w2"
    using tb by (simp add: execute_test_def w2_def split: sum.splits prod.splits)
  have reg2: "active_drivers w2 = active_drivers w1"
    by (simp add: w2_def except_block_world split: sum.splits)
  have fin: "active_drivers (finally_block ops (Some d) w2) = deregister d (active_drivers w2)" for d
    using quit[of "browser_env w2"]
    by (cases "drv_quit ops (browser_env w2)") (simp add: finally_block_def call_def)
  from try_block_registry[OF tb] show ?thesis
  proof
    assume "drv = None \<and> active_drivers w1 = active_drivers w"
    with final reg2 show ?thesis by (simp add: finally_block_def)
  next
    assume "drv = Some (next_obj w) \<and>
          active_drivers w1 =
            dict_set (fst (uuid4 ops (snd (Driver ops (browser req) (headless req) (browser_env w)))))
              (next_obj w) (active_drivers w)"
    with final reg2 fin[of "next_obj w"] deregister_fresh[OF fresh_id fresh_obj] show ?thesis by simp
  qed
qed

text \<open>
  C6 at a run the code does not clean up after: the request has no steps, the session
  opens and navigates, and \<open>driver.quit()\<close> raises. The run reports \<open>PASS\<close>, and the
  registry, empty before the request, keeps the entry of the session.
\<close>

theorem quit_fault_leaves_registry_entry:
  "active_drivers world0 = []
   \<and> status (fst (execute_test failing_quit no_steps world0)) = ''PASS''
   \<and> active_drivers (snd (execute_test failing_quit no_steps world0)) = [(''session'', 0)]"
  by (simp add: run_defs eval_defs no_steps_def failing_quit_def)

end
